theory Spec2Isabelle
  imports Main "HOL-Library.Word"
begin

unbundle bit_operations_syntax

section \<open>Model of the HEX/ASCII codec (pty.c)\<close>

subsection \<open>Machine types\<close>

text \<open>
  \<open>uint8_t\<close> is an 8-bit word and \<open>char\<close> is HOL's byte-sized \<open>char\<close>.
  \<open>size_t\<close> values are natural numbers; where the source multiplies a \<open>size_t\<close>
  the 64-bit wrap-around (LP64) is written out with \<open>size_t\<close>.
  A C buffer is a list whose length is the number of allocated cells; an access outside
  the buffer is undefined behaviour in C and is the result \<open>None\<close> here.
\<close>

type_synonym uint8_t = "8 word"

definition size_t :: "nat \<Rightarrow> nat" where
  "size_t n = n mod 2 ^ 64"

subsection \<open>The nibble/character table\<close>

record tLut_u8_c =
  num :: uint8_t
  rep :: char

definition u8nct :: "tLut_u8_c list" where
  "u8nct =
    [ \<lparr>num = 0x00, rep = CHR ''0''\<rparr>,
      \<lparr>num = 0x01, rep = CHR ''1''\<rparr>,
      \<lparr>num = 0x02, rep = CHR ''2''\<rparr>,
      \<lparr>num = 0x03, rep = CHR ''3''\<rparr>,
      \<lparr>num = 0x04, rep = CHR ''4''\<rparr>,
      \<lparr>num = 0x05, rep = CHR ''5''\<rparr>,
      \<lparr>num = 0x06, rep = CHR ''6''\<rparr>,
      \<lparr>num = 0x07, rep = CHR ''7''\<rparr>,
      \<lparr>num = 0x08, rep = CHR ''8''\<rparr>,
      \<lparr>num = 0x09, rep = CHR ''9''\<rparr>,
      \<lparr>num = 0x0A, rep = CHR ''a''\<rparr>,
      \<lparr>num = 0x0B, rep = CHR ''b''\<rparr>,
      \<lparr>num = 0x0C, rep = CHR ''c''\<rparr>,
      \<lparr>num = 0x0D, rep = CHR ''d''\<rparr>,
      \<lparr>num = 0x0E, rep = CHR ''e''\<rparr>,
      \<lparr>num = 0x0F, rep = CHR ''f''\<rparr>,
      \<lparr>num = 0x0A, rep = CHR ''A''\<rparr>,
      \<lparr>num = 0x0B, rep = CHR ''B''\<rparr>,
      \<lparr>num = 0x0C, rep = CHR ''C''\<rparr>,
      \<lparr>num = 0x0D, rep = CHR ''D''\<rparr>,
      \<lparr>num = 0x0E, rep = CHR ''E''\<rparr>,
      \<lparr>num = 0x0F, rep = CHR ''F''\<rparr> ]"

subsection \<open>\<open>_u8toc\<close> and \<open>_ctou8\<close>\<close>

text \<open>
  The two static functions \<open>_u8toc\<close> and \<open>_ctou8\<close> are \<open>u8toc\<close> and \<open>ctou8\<close> here
  (a name cannot begin with an underscore), and the parameter \<open>in\<close> is \<open>inb\<close>,
  \<open>in_char\<close> or \<open>inp\<close>. Both functions scan the table from index 0 and stop at the first match
  (\<open>break\<close>): \<open>find\<close> over the first 16 (\<open>i<16\<close>) or the first 21
  (\<open>i<21\<close>) entries.

  \<open>_u8toc\<close> writes through two pointers. The model takes the current contents of the two
  cells and returns their new contents, in the order of the parameters. As in the source,
  the character of \<open>in >> 4\<close> goes to the cell called \<open>low_nibble_conv\<close> and the
  character of \<open>in & 0x0F\<close> to the cell called \<open>high_nibble_conv\<close>; a cell is left as it
  was when its loop finds no entry.
\<close>

definition u8toc :: "char \<Rightarrow> char \<Rightarrow> uint8_t \<Rightarrow> char \<times> char" where
  "u8toc high_nibble_conv low_nibble_conv inb =
    (let low_nibble_conv' =
           (case find (\<lambda>e. (0x0F AND drop_bit 4 inb) = num e) (take 16 u8nct) of
              Some e \<Rightarrow> rep e
            | None \<Rightarrow> low_nibble_conv);
         high_nibble_conv' =
           (case find (\<lambda>e. (0x0F AND inb) = num e) (take 16 u8nct) of
              Some e \<Rightarrow> rep e
            | None \<Rightarrow> high_nibble_conv)
     in (high_nibble_conv', low_nibble_conv'))"

text \<open>
  In \<open>_ctou8\<close> the variable \<open>out\<close> is set to \<open>0x00\<close> at the end of every iteration that
  does not match, so the result is the matching entry's number, or zero.
\<close>

definition ctou8 :: "char \<Rightarrow> uint8_t" where
  "ctou8 in_char =
    (case find (\<lambda>e. in_char = rep e) (take 21 u8nct) of
       Some e \<Rightarrow> num e
     | None \<Rightarrow> 0x00)"

subsection \<open>\<open>snprintu8\<close>: characters to bytes\<close>

function snprintu8_loop ::
  "nat \<Rightarrow> nat \<Rightarrow> nat \<Rightarrow> char list \<Rightarrow> uint8_t list \<Rightarrow> (nat \<times> uint8_t list) option" where
  "snprintu8_loop i os shift inp out =
    (if i < os then
       (let index = (i * 2) + 1 - shift in
        if index < length inp \<and> i < length out then
          (let l = ctou8 (inp ! index);
               h = ctou8 (inp ! (index - 1))
           in snprintu8_loop (i + 1) os shift inp
                (out[i := (0xF0 AND push_bit 4 h) OR (0x0F AND l)]))
        else None)
     else Some (i, out))"
  by pat_completeness auto
termination
  by (relation "measure (\<lambda>(i, os, shift, inp, out). os - i)") auto

definition snprintu8 ::
  "uint8_t list \<Rightarrow> nat \<Rightarrow> char list \<Rightarrow> nat \<Rightarrow> (nat \<times> uint8_t list) option" where
  "snprintu8 out out_size inp in_size =
    (let shift = in_size mod 2 in
     if out_size < in_size div 2 + shift \<and> out_size = 0 then Some (0, out)
     else
       (let os = (if out_size < in_size div 2 + shift then out_size
                  else in_size div 2 + shift)
        in case (if 1 = shift then
                   (if 0 < length inp \<and> 0 < length out
                    then Some (out[0 := 0x0F AND ctou8 (inp ! 0)]) else None)
                 else Some out) of
             None \<Rightarrow> None
           | Some out1 \<Rightarrow> snprintu8_loop shift os shift inp out1))"

subsection \<open>\<open>u8nprints\<close>: bytes to characters\<close>

text \<open>
  The call \<open>_u8toc( &out[2*i+1], &out[2*i], in[i] )\<close> passes \<open>out[2*i+1]\<close> as
  \<open>high_nibble_conv\<close> and \<open>out[2*i]\<close> as \<open>low_nibble_conv\<close>.
\<close>

function u8nprints_loop ::
  "nat \<Rightarrow> nat \<Rightarrow> uint8_t list \<Rightarrow> char list \<Rightarrow> (nat \<times> char list) option" where
  "u8nprints_loop i brs inp out =
    (if i < brs then
       (if i < length inp \<and> 2 * i + 1 < length out then
          (case u8toc (out ! (2 * i + 1)) (out ! (2 * i)) (inp ! i) of
             (hc, lc) \<Rightarrow>
               u8nprints_loop (i + 1) brs inp (out[2 * i := lc, 2 * i + 1 := hc]))
        else None)
     else Some (i, out))"
  by pat_completeness auto
termination
  by (relation "measure (\<lambda>(i, brs, inp, out). brs - i)") auto

definition u8nprints ::
  "char list \<Rightarrow> nat \<Rightarrow> uint8_t list \<Rightarrow> nat \<Rightarrow> (nat \<times> char list) option" where
  "u8nprints out out_size inp in_num =
    (let brs = (if out_size < size_t (in_num * 2) then out_size div 2 else in_num)
     in case u8nprints_loop 0 brs inp out of
          None \<Rightarrow> None
        | Some (i, out') \<Rightarrow> Some (size_t (i * 2), out'))"

declare snprintu8_loop.simps [simp del] u8nprints_loop.simps [simp del]

subsection \<open>Reference readings used in the statements\<close>

text \<open>
  The following three definitions are not taken from the source. They give names to the
  standard meaning of a hexadecimal digit and to the two expressions the statements are
  about: \<open>hex_digit n\<close> is the lowercase digit of a nibble, \<open>pair_byte hc lc\<close> is the
  byte \<open>snprintu8\<close> builds from a pair of characters (the expression of its loop body),
  and \<open>enc_char inp j\<close> is the expected character at index \<open>j\<close> of the encoding of
  \<open>inp\<close> with the high nibble first.
\<close>

definition hex_digit :: "uint8_t \<Rightarrow> char" where
  "hex_digit n = ''0123456789abcdef'' ! unat n"

definition pair_byte :: "char \<Rightarrow> char \<Rightarrow> uint8_t" where
  "pair_byte hc lc = (0xF0 AND push_bit 4 (ctou8 hc)) OR (0x0F AND ctou8 lc)"

definition enc_char :: "uint8_t list \<Rightarrow> nat \<Rightarrow> char" where
  "enc_char inp j =
     (if even j then hex_digit (0x0F AND drop_bit 4 (inp ! (j div 2)))
      else hex_digit (0x0F AND (inp ! (j div 2))))"


section \<open>Model of \<open>full_write\<close> (pty.c)\<close>

text \<open>
  The kernel's \<open>write(fd, buf, count)\<close> is the environment of \<open>full_write\<close>. One call
  either fails (\<open>Wfail\<close>, return value \<open>-1\<close>) or transfers the first \<open>k\<close> of the bytes
  offered and returns their number; POSIX guarantees that this number is at most \<open>count\<close>.
  The calls of one run are given as a list, one entry per call in order. When the list is
  used up while bytes remain, the loop is still calling \<open>write\<close> and the function has not
  returned: the result is \<open>None\<close>.

  \<open>ssize_t\<close> is a signed 64-bit integer with the wrap-around written out. In
  \<open>remaining -= cc\<close> the subtraction cannot wrap, since \<open>0 \<le> cc \<le> remaining\<close> there.
  The result is the return value together with the bytes the file has received, in order.
  The variable \<open>total\<close> of the source is \<open>tot\<close> here, since \<open>total\<close> is a constant of HOL.
  The list \<open>buf\<close> holds the bytes at the pointer \<open>buf\<close>; the statements are about calls
  with \<open>len = length buf\<close>. \<open>dev\<close> collects what the file has received.
\<close>

datatype write_result = Wfail | Waccept nat

definition write_ret :: "write_result \<Rightarrow> nat \<Rightarrow> int" where
  "write_ret w count = (case w of Wfail \<Rightarrow> - 1 | Waccept k \<Rightarrow> int (min k count))"

definition ssize_t :: "int \<Rightarrow> int" where
  "ssize_t x = (x + 2 ^ 63) mod 2 ^ 64 - 2 ^ 63"

fun full_write_loop ::
  "write_result list \<Rightarrow> 'a list \<Rightarrow> nat \<Rightarrow> int \<Rightarrow> 'a list \<Rightarrow> (int \<times> 'a list) option" where
  "full_write_loop [] buf remaining tot dev =
    (if remaining > 0 then None else Some (tot, dev))"
| "full_write_loop (w # ws) buf remaining tot dev =
    (if remaining > 0 then
       (let cc = write_ret w remaining in
        if cc < 0 then
          (if tot > 0 then Some (tot, dev) else Some (cc, dev))
        else
          full_write_loop ws (drop (nat cc) buf) (remaining - nat cc)
            (ssize_t (tot + cc)) (dev @ take (nat cc) buf))
     else Some (tot, dev))"

definition full_write :: "write_result list \<Rightarrow> 'a list \<Rightarrow> nat \<Rightarrow> (int \<times> 'a list) option" where
  "full_write ws buf len = full_write_loop ws buf len 0 []"

text \<open>The number of bytes a scripted call is ready to transfer.\<close>

fun accepted :: "write_result \<Rightarrow> nat" where
  "accepted Wfail = 0"
| "accepted (Waccept k) = k"


section \<open>System calls, traces and outcomes\<close>

text \<open>
  A relay direction is a process that calls \<open>read\<close>, \<open>write\<close> and \<open>kill\<close>. The model
  of a direction takes the answers of the kernel as a script, one entry per iteration of
  the copy loop, and returns the trace of the calls the process has made together with
  how it ended. The claims about the relay are claims about these traces.

  When the script is used up while the loop is about to call \<open>read\<close> again, the
  direction has not stopped: the outcome is \<open>Running\<close> (in a loop: \<open>Still_looping\<close>).

  A process that calls \<open>exit\<close>, directly or through \<open>err_sys\<close>, runs the functions
  registered with \<open>atexit\<close> before it ends, also when the registration was made before
  a \<open>fork\<close> and the process is the child: their calls belong to its trace.
\<close>

definition STDIN_FILENO :: int where "STDIN_FILENO = 0"
definition STDOUT_FILENO :: int where "STDOUT_FILENO = 1"
definition SIGTERM :: int where "SIGTERM = 15"
definition EXIT_FAILURE :: int where "EXIT_FAILURE = 1"
definition BUFLEN :: nat where "BUFLEN = 1024"

datatype event =
    SysRead int nat
  | SysWrite int nat
  | SysClose int
  | SysKill int int
  | SysSleep nat
  | SysTcsetattr int
  | SysIoctlWinsz int
  | SysFree nat
  | ErrMsg string
  | ErrSys string

datatype loop_end =
    Left_loop int "event list"
  | Still_looping "event list"
  | Exited int "event list"
  | Undefined_behaviour

datatype outcome =
    Exits int "event list"
  | Returns "event list"
  | Running "event list"
  | Undefined

fun trace_of :: "outcome \<Rightarrow> event list" where
  "trace_of (Exits st tr) = tr"
| "trace_of (Returns tr) = tr"
| "trace_of (Running tr) = tr"
| "trace_of Undefined = []"

fun stopped :: "outcome \<Rightarrow> bool" where
  "stopped (Exits st tr) = True"
| "stopped (Returns tr) = True"
| "stopped (Running tr) = False"
| "stopped Undefined = False"

fun is_kill :: "event \<Rightarrow> bool" where
  "is_kill (SysKill p s) = True"
| "is_kill e = False"

definition kills :: "event list \<Rightarrow> event list" where
  "kills tr = filter is_kill tr"

text \<open>The trace a loop has produced, and the exit status of a process that has exited.\<close>

fun loop_trace :: "loop_end \<Rightarrow> event list" where
  "loop_trace (Left_loop n tr) = tr"
| "loop_trace (Still_looping tr) = tr"
| "loop_trace (Exited st tr) = tr"
| "loop_trace Undefined_behaviour = []"

fun exit_status :: "outcome \<Rightarrow> int option" where
  "exit_status (Exits st tr) = Some st"
| "exit_status (Returns tr) = None"
| "exit_status (Running tr) = None"
| "exit_status Undefined = None"

section \<open>Model of the exit handler \<open>cleanup\<close> (main.c) and of \<open>tty_reset\<close> (pty.c)\<close>

text \<open>
  The global variables of main.c that the exit handler reads. A pointer is \<open>None\<close>
  when it is \<open>NULL\<close> and \<open>Some a\<close> when it holds the address \<open>a\<close>. The terminal settings
  behind \<open>orig_termios\<close> and \<open>size\<close> do not matter here and are not part of the state;
  \<open>size_set\<close> says whether \<open>size\<close> is not \<open>NULL\<close>.
\<close>

record globals =
  fdm :: int
  detached :: int
  size_set :: bool
  child_pids :: int
  cmd :: "nat option"
  prog :: "nat option"
  prog_list :: "nat option"
  driver :: "nat option"
  driver_list :: "nat option"

text \<open>The return values of the system calls that the handler makes.\<close>

record cleanup_env =
  kill_ret :: int
  tcsetattr_ret :: int
  tcsetattr_retry_ret :: int
  ioctl_ret :: int

definition tty_reset :: "int \<Rightarrow> bool \<Rightarrow> cleanup_env \<Rightarrow> int \<times> event list" where
  "tty_reset fd load_winsz env =
    (if 0 > tcsetattr_ret env \<and> 0 > tcsetattr_retry_ret env then
       (- 1, [SysTcsetattr fd, SysTcsetattr fd, ErrMsg ''Failed reset terminal''])
     else
       (let tr = (if 0 > tcsetattr_ret env then [SysTcsetattr fd, SysTcsetattr fd]
                  else [SysTcsetattr fd])
        in if load_winsz then
             (if 0 > ioctl_ret env
              then (- 1, tr @ [SysIoctlWinsz fd, ErrMsg ''Failed reset terminal''])
              else (0, tr @ [SysIoctlWinsz fd]))
           else (0, tr)))"

text \<open>\<open>free(p)\<close>: a call with \<open>NULL\<close> does nothing.\<close>

definition free :: "nat option \<Rightarrow> event list" where
  "free p = (case p of None \<Rightarrow> [] | Some a \<Rightarrow> [SysFree a])"

definition cleanup :: "globals \<Rightarrow> cleanup_env \<Rightarrow> event list" where
  "cleanup g env =
    (if child_pids g > 0 then
       (if 0 > kill_ret env
        then [SysKill (child_pids g) SIGTERM,
              ErrMsg ''Failed sending SIGTERM to child processes'']
        else [SysKill (child_pids g) SIGTERM])
     else [])
    @ (if 0 = detached g then snd (tty_reset (fdm g) (size_set g) env) else [])
    @ free (prog g)
    @ (if None \<noteq> prog_list g then free (prog_list g) else [])
    @ (if None \<noteq> prog g then free (driver g) else [])
    @ (if None \<noteq> driver_list g then free (driver_list g) else [])
    @ (if None \<noteq> cmd g then free (cmd g) else [])"


section \<open>Model of the relay of \<open>ptym_process_stdio\<close> (main.c)\<close>

text \<open>
  A script entry \<open>(nread, wret)\<close> is the return value of the \<open>read\<close> of one iteration
  and the return value of the \<open>write\<close> that follows it, when the iteration writes.

  The child copies standard input to the pty master.
\<close>

fun ptym_child_loop :: "int \<Rightarrow> int \<Rightarrow> (int \<times> int) list \<Rightarrow> event list \<Rightarrow> loop_end" where
  "ptym_child_loop pty_amaster ignore_eof [] tr = Still_looping tr"
| "ptym_child_loop pty_amaster ignore_eof ((nread, wret) # io) tr =
    (if - 1 < nread then
       (if 0 = nread then
          (if 0 = ignore_eof then Left_loop nread (tr @ [SysRead STDIN_FILENO BUFLEN])
           else ptym_child_loop pty_amaster ignore_eof io (tr @ [SysRead STDIN_FILENO BUFLEN]))
        else
          (if 0 > wret then
             Left_loop nread
               (tr @ [SysRead STDIN_FILENO BUFLEN, SysWrite pty_amaster (nat nread),
                      ErrMsg ''Failed writing to PTY-master''])
           else
             ptym_child_loop pty_amaster ignore_eof io
               (tr @ [SysRead STDIN_FILENO BUFLEN, SysWrite pty_amaster (nat nread)])))
     else Left_loop nread (tr @ [SysRead STDIN_FILENO BUFLEN]))"

text \<open>
  \<open>main\<close> registers the exit handler \<open>cleanup\<close> with \<open>atexit\<close> before it calls
  \<open>ptym_process_stdio\<close>, and it registers no other. The child created by the \<open>fork\<close>
  in \<open>ptym_process_stdio\<close> inherits the registration and its own copy \<open>g\<close> of the
  globals, with the pid of the spawned program in \<open>child_pids\<close>. It ends with
  \<open>exit( 0 )\<close> or \<open>err_sys\<close>, never with \<open>_exit\<close>, so it runs \<open>cleanup\<close> when it ends;
  \<open>env\<close> holds the answers of the system calls of the handler.
\<close>

definition ptym_process_stdio_child ::
  "int \<Rightarrow> int \<Rightarrow> int \<Rightarrow> globals \<Rightarrow> cleanup_env \<Rightarrow> (int \<times> int) list \<Rightarrow> outcome" where
  "ptym_process_stdio_child pty_amaster ignore_eof ppid g env io =
    (case ptym_child_loop pty_amaster ignore_eof io [SysClose STDOUT_FILENO] of
       Left_loop nread tr \<Rightarrow>
         (let tr1 = (if 1 = ignore_eof then tr @ [SysSleep 5, SysKill ppid SIGTERM] else tr)
          in if 0 < nread
             then Exits EXIT_FAILURE (tr1 @ [ErrSys ''Read failure on STDIN''] @ cleanup g env)
             else Exits 0 (tr1 @ cleanup g env))
     | Still_looping tr \<Rightarrow> Running tr
     | Exited st tr \<Rightarrow> Exits st (tr @ cleanup g env)
     | Undefined_behaviour \<Rightarrow> Undefined)"

text \<open>
  The parent copies the pty master to standard output. \<open>pac\<close> is the "parent abort
  condition". \<open>sigcaught\<close> is the value of the flag when the parent tests it after its
  loop; \<open>signal_ok\<close> says that installing the handler succeeded. The parent runs
  \<open>cleanup\<close> as well wherever it ends through \<open>err_sys\<close>. (The flag is declared
  \<open>static\<close> in pty.h, so the test in main.c reads main.c's own copy, which \<open>main\<close>
  sets to 0, while the handler \<open>sig_term\<close> of pty.c sets the copy of pty.c. The model
  does not depend on this: it takes the value that the test reads as a parameter.)
\<close>

fun ptym_parent_loop :: "int \<Rightarrow> int \<Rightarrow> (int \<times> int) list \<Rightarrow> event list \<Rightarrow> loop_end" where
  "ptym_parent_loop pty_amaster pac [] tr = Still_looping tr"
| "ptym_parent_loop pty_amaster pac ((nread, wret) # io) tr =
    (if pac < nread then
       (if nread > 0 then
          (if wret \<noteq> nread then
             Left_loop nread
               (tr @ [SysRead pty_amaster BUFLEN, SysWrite STDOUT_FILENO (nat nread),
                      ErrMsg ''Failed writing to STDOUT''])
           else
             ptym_parent_loop pty_amaster pac io
               (tr @ [SysRead pty_amaster BUFLEN, SysWrite STDOUT_FILENO (nat nread)]))
        else ptym_parent_loop pty_amaster pac io (tr @ [SysRead pty_amaster BUFLEN]))
     else Left_loop nread (tr @ [SysRead pty_amaster BUFLEN]))"

definition ptym_process_stdio_parent ::
  "int \<Rightarrow> int \<Rightarrow> int \<Rightarrow> int \<Rightarrow> bool \<Rightarrow> globals \<Rightarrow> cleanup_env \<Rightarrow>
   (int \<times> int) list \<Rightarrow> outcome" where
  "ptym_process_stdio_parent pty_amaster ignore_eof child sigcaught signal_ok g env io =
    (if \<not> signal_ok then
       Exits EXIT_FAILURE
         ([ErrSys ''Failed to install signal handler for SIGTERM''] @ cleanup g env)
     else
       (let pac = (if ignore_eof > 0 then - 1 else 0)
        in case ptym_parent_loop pty_amaster pac io [] of
             Left_loop nread tr \<Rightarrow>
               (let tr1 = (if 0 = sigcaught then tr @ [SysKill child SIGTERM] else tr)
                in if 0 < nread
                   then Exits EXIT_FAILURE
                          (tr1 @ [ErrSys ''Read failure on PTY-master''] @ cleanup g env)
                   else Returns tr1)
           | Still_looping tr \<Rightarrow> Running tr
           | Exited st tr \<Rightarrow> Exits st (tr @ cleanup g env)
           | Undefined_behaviour \<Rightarrow> Undefined))"

text \<open>
  The end of \<open>main\<close> in the parent: \<open>ptym_process_stdio( fdm, ignoreeof ); exit( 0 );\<close>.
  When the parent direction returns, the process exits with status 0 and runs
  \<open>cleanup\<close>.
\<close>

definition main_relay_parent ::
  "int \<Rightarrow> int \<Rightarrow> int \<Rightarrow> bool \<Rightarrow> globals \<Rightarrow> cleanup_env \<Rightarrow> (int \<times> int) list \<Rightarrow> outcome" where
  "main_relay_parent ignoreeof child sigcaught signal_ok g env io =
    (case ptym_process_stdio_parent (fdm g) ignoreeof child sigcaught signal_ok g env io of
       Returns tr \<Rightarrow> Exits 0 (tr @ cleanup g env)
     | Exits st tr \<Rightarrow> Exits st tr
     | Running tr \<Rightarrow> Running tr
     | Undefined \<Rightarrow> Undefined)"

section \<open>Model of the relay of \<open>loop_duplex_stdio\<close> (pty.c)\<close>

text \<open>
  Here the data matter, since the loops call the codec. A script entry
  \<open>(r, wret, lfret)\<close> is the answer \<open>r\<close> of the \<open>read\<close> of one iteration (data, end of
  file, or an error), the return value of the \<open>write\<close> of the data and the return value
  of the \<open>write\<close> of the forced line terminator. \<open>write_or_warn\<close> ends the process
  through \<open>err_sys\<close> when \<open>write\<close> fails.
\<close>

datatype 'a read_result = Rdata "'a list" | Reof | Rerr

definition read_ret :: "'a read_result \<Rightarrow> nat \<Rightarrow> int" where
  "read_ret r count =
    (case r of Rdata d \<Rightarrow> int (length (take count d)) | Reof \<Rightarrow> 0 | Rerr \<Rightarrow> - 1)"

definition read_buf :: "'a read_result \<Rightarrow> nat \<Rightarrow> 'a list \<Rightarrow> 'a list" where
  "read_buf r count buf =
    (case r of
       Rdata d \<Rightarrow> take count d @ drop (length (take count d)) buf
     | Reof \<Rightarrow> buf
     | Rerr \<Rightarrow> buf)"

definition bflush :: "'a list \<Rightarrow> nat \<Rightarrow> 'a \<Rightarrow> 'a list option" where
  "bflush addr flushsize initval =
    (if flushsize \<le> length addr then Some (replicate flushsize initval @ drop flushsize addr)
     else None)"

definition write_or_warn :: "int \<Rightarrow> nat \<Rightarrow> int \<Rightarrow> event list \<Rightarrow> event list + (int \<times> event list)" where
  "write_or_warn fd len ret tr =
    (if 0 > ret then Inl (tr @ [SysWrite fd len, ErrSys ''Write failure''])
     else Inr (ret, tr @ [SysWrite fd len]))"

text \<open>The forced line terminator, written after the data when \<open>linefeed\<close> is not \<open>NULL\<close>.\<close>

definition write_linefeed :: "int \<Rightarrow> string option \<Rightarrow> int \<Rightarrow> event list \<Rightarrow> event list + event list" where
  "write_linefeed fd linefeed lfret tr =
    (case linefeed of
       None \<Rightarrow> Inr tr
     | Some lf \<Rightarrow>
         (case write_or_warn fd (length lf) lfret tr of
            Inl tr' \<Rightarrow> Inl tr'
          | Inr (n, tr') \<Rightarrow> Inr tr'))"

text \<open>The child copies the device (\<open>fd_read\<close>) to standard output, bytes to hex digits.\<close>

fun lds_child_loop ::
  "int \<Rightarrow> int \<Rightarrow> int \<Rightarrow> nat \<Rightarrow> string option \<Rightarrow>
   (uint8_t read_result \<times> int \<times> int) list \<Rightarrow>
   int \<Rightarrow> int \<Rightarrow> uint8_t list \<Rightarrow> char list \<Rightarrow> event list \<Rightarrow> loop_end" where
  "lds_child_loop fd_read ieof translate bufsize linefeed [] nwrite nread lds_buffer lds_tbuf tr =
    (if - 1 < nwrite \<and> - 1 < nread then Still_looping tr else Left_loop nread tr)"
| "lds_child_loop fd_read ieof translate bufsize linefeed ((r, wret, lfret) # io)
     nwrite nread lds_buffer lds_tbuf tr =
    (if - 1 < nwrite \<and> - 1 < nread then
       (let nread1 = read_ret r bufsize;
            buffer1 = read_buf r bufsize lds_buffer;
            tr1 = tr @ [SysRead fd_read bufsize]
        in if 0 < nread1 then
             (if 1 = translate then
                (case bflush lds_tbuf (nat nread1 * 2) (CHR 0x00) of
                   None \<Rightarrow> Undefined_behaviour
                 | Some tbuf1 \<Rightarrow>
                     (case u8nprints tbuf1 (nat nread1 * 2) buffer1 (nat nread1) of
                        None \<Rightarrow> Undefined_behaviour
                      | Some (n, tbuf2) \<Rightarrow>
                          (case write_or_warn STDOUT_FILENO n wret tr1 of
                             Inl tr2 \<Rightarrow> Exited EXIT_FAILURE tr2
                           | Inr (nwrite2, tr2) \<Rightarrow>
                               (case write_linefeed STDOUT_FILENO linefeed lfret tr2 of
                                  Inl tr3 \<Rightarrow> Exited EXIT_FAILURE tr3
                                | Inr tr3 \<Rightarrow>
                                    lds_child_loop fd_read ieof translate bufsize linefeed io
                                      nwrite2 nread1 buffer1 tbuf2 tr3))))
              else
                (case write_or_warn STDOUT_FILENO (nat nread1) wret tr1 of
                   Inl tr2 \<Rightarrow> Exited EXIT_FAILURE tr2
                 | Inr (nwrite2, tr2) \<Rightarrow>
                     (case write_linefeed STDOUT_FILENO linefeed lfret tr2 of
                        Inl tr3 \<Rightarrow> Exited EXIT_FAILURE tr3
                      | Inr tr3 \<Rightarrow>
                          lds_child_loop fd_read ieof translate bufsize linefeed io
                            nwrite2 nread1 buffer1 lds_tbuf tr3)))
           else if 0 = ieof then Left_loop nread1 tr1
           else
             lds_child_loop fd_read ieof translate bufsize linefeed io
               nwrite nread1 buffer1 lds_tbuf tr1)
     else Left_loop nread tr)"

text \<open>
  The parent copies standard input to the device (\<open>fd_write\<close>), hex digits to bytes.
  The parameter \<open>ieof\<close> of \<open>loop_duplex_stdio\<close> does not occur in this loop. After
  the loop the parent releases its two buffers and returns; the two calls of \<open>free\<close>
  are not recorded in the trace.
\<close>

fun lds_parent_loop ::
  "int \<Rightarrow> int \<Rightarrow> nat \<Rightarrow> int \<Rightarrow> string option \<Rightarrow>
   (char read_result \<times> int \<times> int) list \<Rightarrow>
   int \<Rightarrow> int \<Rightarrow> char list \<Rightarrow> uint8_t list \<Rightarrow> event list \<Rightarrow> loop_end" where
  "lds_parent_loop fd_write translate bufsize nolf linefeed [] nwrite nread lds_buffer lds_tbuf tr =
    (if - 1 < nwrite \<and> - 1 < nread then Still_looping tr else Left_loop nread tr)"
| "lds_parent_loop fd_write translate bufsize nolf linefeed ((r, wret, lfret) # io)
     nwrite nread lds_buffer lds_tbuf tr =
    (if - 1 < nwrite \<and> - 1 < nread then
       (let nread1 = read_ret r bufsize;
            buffer1 = read_buf r bufsize lds_buffer;
            tr1 = tr @ [SysRead STDIN_FILENO bufsize]
        in if 0 < nread1 then
             (let nread2 = (if 1 = nolf then nread1 - 1 else nread1)
              in if 1 = translate then
                   (case bflush lds_tbuf (nat (nread2 div 2 + 1)) 0x00 of
                      None \<Rightarrow> Undefined_behaviour
                    | Some tbuf1 \<Rightarrow>
                        (case snprintu8 tbuf1 (nat nread2 div 2 + nat nread2 mod 2)
                                buffer1 (nat nread2) of
                           None \<Rightarrow> Undefined_behaviour
                         | Some (n, tbuf2) \<Rightarrow>
                             (case write_or_warn fd_write n wret tr1 of
                                Inl tr2 \<Rightarrow> Exited EXIT_FAILURE tr2
                              | Inr (nwrite2, tr2) \<Rightarrow>
                                  (case write_linefeed fd_write linefeed lfret tr2 of
                                     Inl tr3 \<Rightarrow> Exited EXIT_FAILURE tr3
                                   | Inr tr3 \<Rightarrow>
                                       lds_parent_loop fd_write translate bufsize nolf linefeed
                                         io nwrite2 nread2 buffer1 tbuf2 tr3))))
                 else
                   (case write_or_warn fd_write (nat nread2) wret tr1 of
                      Inl tr2 \<Rightarrow> Exited EXIT_FAILURE tr2
                    | Inr (nwrite2, tr2) \<Rightarrow>
                        (case write_linefeed fd_write linefeed lfret tr2 of
                           Inl tr3 \<Rightarrow> Exited EXIT_FAILURE tr3
                         | Inr tr3 \<Rightarrow>
                             lds_parent_loop fd_write translate bufsize nolf linefeed
                               io nwrite2 nread2 buffer1 lds_tbuf tr3)))
           else
             lds_parent_loop fd_write translate bufsize nolf linefeed io
               nwrite nread1 buffer1 lds_tbuf tr1)
     else Left_loop nread tr)"

text \<open>
  The environment of one process running \<open>loop_duplex_stdio\<close>: what \<open>fork\<close> and
  \<open>getppid\<close> return in it, whether the allocations and the installation of the handler
  succeed, the indeterminate contents of fresh memory, and the indeterminate initial
  value of the local variable \<open>nread\<close>, which the source does not initialise.
\<close>

record lds_env =
  fork_ret :: int
  getppid_ret :: int
  malloc_buffer_ok :: bool
  malloc_tbuf_ok :: bool
  signal_intr_ok :: bool
  heap :: "nat \<Rightarrow> uint8_t"
  nread_init :: int

definition lds_child ::
  "int \<Rightarrow> int \<Rightarrow> int \<Rightarrow> int \<Rightarrow> nat \<Rightarrow> string option \<Rightarrow> lds_env \<Rightarrow>
   (uint8_t read_result \<times> int \<times> int) list \<Rightarrow> outcome" where
  "lds_child fd_read fd_write ieof translate bufsize linefeed env io =
    (let tr0 = [SysClose fd_write, SysClose STDIN_FILENO]
     in if 1 = translate \<and> \<not> malloc_tbuf_ok env then
          Exits EXIT_FAILURE (tr0 @ [ErrSys ''Not enough space for translation buffer''])
        else
          (case lds_child_loop fd_read ieof translate bufsize linefeed io 0 (nread_init env)
                  (map (heap env) [0..<bufsize])
                  (if 1 = translate then map (\<lambda>i. char_of (unat (heap env i))) [0..<size_t (bufsize * 2)]
                   else [])
                  tr0 of
             Left_loop nread tr \<Rightarrow>
               (let tr1 = (if 1 = ieof then tr @ [SysKill (getppid_ret env) SIGTERM] else tr)
                in if 0 < nread
                   then Exits EXIT_FAILURE (tr1 @ [ErrSys ''Read failure on device''])
                   else Exits 0 tr1)
           | Still_looping tr \<Rightarrow> Running tr
           | Exited st tr \<Rightarrow> Exits st tr
           | Undefined_behaviour \<Rightarrow> Undefined))"

definition lds_parent ::
  "int \<Rightarrow> int \<Rightarrow> int \<Rightarrow> nat \<Rightarrow> int \<Rightarrow> string option \<Rightarrow> lds_env \<Rightarrow>
   (char read_result \<times> int \<times> int) list \<Rightarrow> outcome" where
  "lds_parent fd_read fd_write translate bufsize nolf linefeed env io =
    (let tr0 = (if - 1 < fd_read then [SysClose fd_read, SysClose STDOUT_FILENO] else [])
     in if 1 = translate \<and> \<not> malloc_tbuf_ok env then
          Exits EXIT_FAILURE (tr0 @ [ErrSys ''Not enough space for translation buffer''])
        else if \<not> signal_intr_ok env then
          Exits EXIT_FAILURE (tr0 @ [ErrSys ''Cannot install signal handler for SIGTERM''])
        else
          (case lds_parent_loop fd_write translate bufsize nolf linefeed io 0 (nread_init env)
                  (map (\<lambda>i. char_of (unat (heap env i))) [0..<bufsize])
                  (if 1 = translate then map (heap env) [0..<bufsize div 2 + 1] else [])
                  tr0 of
             Left_loop nread tr \<Rightarrow>
               (if 0 < nread then Returns (tr @ [ErrMsg ''Failed reading from stdin''])
                else Returns tr)
           | Still_looping tr \<Rightarrow> Running tr
           | Exited st tr \<Rightarrow> Exits st tr
           | Undefined_behaviour \<Rightarrow> Undefined))"

text \<open>
  \<open>loop_duplex_stdio\<close> in one process: after the allocation of the read/write buffer
  it forks unless \<open>fd_read\<close> is \<open>-1\<close>; the process where \<open>pid\<close> is 0 runs the child
  direction and exits, every other process runs the parent direction and returns.
\<close>

definition loop_duplex_stdio ::
  "int \<Rightarrow> int \<Rightarrow> int \<Rightarrow> int \<Rightarrow> nat \<Rightarrow> int \<Rightarrow> string option \<Rightarrow> lds_env \<Rightarrow>
   (uint8_t read_result \<times> int \<times> int) list \<Rightarrow> (char read_result \<times> int \<times> int) list \<Rightarrow>
   outcome" where
  "loop_duplex_stdio fd_read fd_write ieof translate bufsize nolf linefeed env io_dev io_stdin =
    (if \<not> malloc_buffer_ok env then
       Exits EXIT_FAILURE [ErrSys ''Not enough space for read/write buffers'']
     else
       (let pid = (if - 1 \<noteq> fd_read then fork_ret env else - 1)
        in if - 1 \<noteq> fd_read \<and> pid < 0 then
             Exits EXIT_FAILURE [ErrSys ''Failed forking into read/write loop'']
           else if 0 = pid then
             lds_child fd_read fd_write ieof translate bufsize linefeed env io_dev
           else
             lds_parent fd_read fd_write translate bufsize nolf linefeed env io_stdin))"

text \<open>
  What holds of a loop of \<open>loop_duplex_stdio\<close> however it ends: it has sent the signals
  \<open>k\<close> and no others, it is left only with \<open>nread \<le> 0\<close>, and it ends the process
  only with \<open>EXIT_FAILURE\<close>.
\<close>

fun loop_kills_inv :: "event list \<Rightarrow> loop_end \<Rightarrow> bool" where
  "loop_kills_inv k (Left_loop n tr) = (n \<le> 0 \<and> kills tr = k)"
| "loop_kills_inv k (Still_looping tr) = (kills tr = k)"
| "loop_kills_inv k (Exited st tr) = (st = EXIT_FAILURE \<and> kills tr = k)"
| "loop_kills_inv k Undefined_behaviour = True"

text \<open>
  \<open>loop_duplex_stdio\<close> is a library function and registers no exit handler itself.
  When a process that runs it exits, the handlers that its caller has registered run;
  \<open>at_exit handlers\<close> adds their calls to the trace of a process that has exited. (The
  caller in this repository, tcat.c, registers \<open>cleanup\<close>, \<open>restore_stdin\<close>,
  \<open>restore_device\<close> and \<open>_bfrees\<close>, which call \<open>free\<close> and \<open>tty_reset\<close> only.)
\<close>

fun at_exit :: "event list \<Rightarrow> outcome \<Rightarrow> outcome" where
  "at_exit handlers (Exits st tr) = Exits st (tr @ handlers)"
| "at_exit handlers (Returns tr) = Returns tr"
| "at_exit handlers (Running tr) = Running tr"
| "at_exit handlers Undefined = Undefined"

section \<open>Model of the slave name in \<open>ptym_open\<close> and \<open>pty_fork_init\<close> (pty.c)\<close>

text \<open>
  A character buffer is the list of its allocated cells. \<open>strncpy\<close> is the function of
  the C library: it copies the characters of the string at \<open>src\<close> up to its terminator,
  at most \<open>n\<close> of them, and fills the rest of the \<open>n\<close> cells of \<open>dest\<close> with \<open>NUL\<close>, so
  it writes exactly the cells \<open>0 .. n - 1\<close> of \<open>dest\<close>. Its behaviour is undefined
  (\<open>None\<close>) when \<open>dest\<close> has fewer than \<open>n\<close> cells, or when it would read beyond the
  cells of \<open>src\<close>.
\<close>

definition PTS_NAME_LENGTH :: nat where
  "PTS_NAME_LENGTH = 20"

definition NUL :: char where
  "NUL = CHR 0x00"

definition strncpy :: "char list \<Rightarrow> char list \<Rightarrow> nat \<Rightarrow> char list option" where
  "strncpy dest src n =
    (if n \<le> length dest \<and> (n \<le> length src \<or> NUL \<in> set src)
     then Some (take n (takeWhile (\<lambda>c. c \<noteq> NUL) src @ replicate n NUL) @ drop n dest)
     else None)"

text \<open>The conversion of an \<open>int\<close> argument to \<open>size_t\<close>.\<close>

definition size_t_of_int :: "int \<Rightarrow> nat" where
  "size_t_of_int i = nat (i mod 2 ^ 64)"

text \<open>
  The environment of the two functions: the return values of the system calls.
  \<open>ptsname_ret\<close> is \<open>None\<close> for \<open>NULL\<close> and otherwise the name of the slave, of any
  length. \<open>errno_val\<close> is the value of \<open>errno\<close> that \<open>assert_perror\<close> tests: it aborts
  the process when the value is not 0. \<open>child_attach_ok\<close> says that the calls on the
  child's side of \<open>pty_fork_init\<close> (\<open>setsid\<close>, \<open>ptys_open\<close>, \<open>tty_interactive\<close>,
  \<open>dup2\<close>) succeed; each of them ends the process through \<open>err_sys\<close> otherwise.
\<close>

record pty_env =
  posix_openpt_ret :: int
  grantpt_ret :: int
  unlockpt_ret :: int
  ptsname_ret :: "string option"
  errno_val :: int
  pty_fork_ret :: int
  child_attach_ok :: bool

text \<open>
  A call returns a result, or the process ends inside it (\<open>abort\<close> or \<open>exit\<close>), or it
  makes an access outside a buffer.
\<close>

datatype 'a call_result = Result 'a | Ended | Out_of_bounds

text \<open>
  \<open>pts_name[pts_namesz-1] = '\0'\<close>: the assignment of the terminator, outside the buffer
  when the index is negative or not below the number of cells.
\<close>

definition terminate_at :: "char list \<Rightarrow> int \<Rightarrow> char list option" where
  "terminate_at buf namesz =
    (if 0 \<le> namesz - 1 \<and> nat (namesz - 1) < length buf
     then Some (buf[nat (namesz - 1) := NUL]) else None)"

text \<open>
  \<open>ptym_open\<close> returns the descriptor of the master, or \<open>-1\<close>, together with the
  caller's buffer. The two calls of \<open>posix_openpt\<close> differ in their flags only. On the
  three error paths after it, \<open>assert_perror(errno)\<close> comes first.
\<close>

definition ptym_open :: "char list \<Rightarrow> int \<Rightarrow> int \<Rightarrow> pty_env \<Rightarrow> (int \<times> char list) call_result" where
  "ptym_open pts_name pts_namesz no_ctty env =
    (let fd_master = posix_openpt_ret env
     in if 0 > fd_master then Result (- 1, pts_name)
        else if 0 > grantpt_ret env then
          (if errno_val env \<noteq> 0 then Ended else Result (- 1, pts_name))
        else if 0 > unlockpt_ret env then
          (if errno_val env \<noteq> 0 then Ended else Result (- 1, pts_name))
        else
          (case ptsname_ret env of
             None \<Rightarrow> (if errno_val env \<noteq> 0 then Ended else Result (- 1, pts_name))
           | Some ptr \<Rightarrow>
               (case strncpy pts_name (ptr @ [NUL]) (size_t_of_int pts_namesz) of
                  None \<Rightarrow> Out_of_bounds
                | Some copied \<Rightarrow>
                    (case terminate_at copied pts_namesz of
                       None \<Rightarrow> Out_of_bounds
                     | Some named \<Rightarrow> Result (fd_master, named)))))"

text \<open>
  \<open>pty_fork_init\<close> has a local array \<open>pts_name\<close> of \<open>PTS_NAME_LENGTH\<close> cells, whose
  contents before the call of \<open>ptym_open\<close> are indeterminate (\<open>stack\<close>). \<open>slave_name\<close>
  is \<open>None\<close> for \<open>NULL\<close>. The result is the returned pid, the descriptor of the master and
  the caller's buffer. After a failed \<open>fork\<close> the source sets \<open>pid = 0\<close> and falls
  through into the code of the child; nothing after the \<open>fork\<close> accesses \<open>slave_name\<close>.
\<close>

definition pty_fork_init ::
  "char list option \<Rightarrow> int \<Rightarrow> int \<Rightarrow> (nat \<Rightarrow> char) \<Rightarrow> pty_env \<Rightarrow>
   (int \<times> int \<times> char list option) call_result" where
  "pty_fork_init slave_name slave_namesz no_ctty stack env =
    (case ptym_open (map stack [0..<PTS_NAME_LENGTH]) (int PTS_NAME_LENGTH) no_ctty env of
       Out_of_bounds \<Rightarrow> Out_of_bounds
     | Ended \<Rightarrow> Ended
     | Result (fd_master, pts_name) \<Rightarrow>
         if fd_master < 0 then Ended
         else
           (case (case slave_name of
                    None \<Rightarrow> Some None
                  | Some sn \<Rightarrow>
                      (case strncpy sn pts_name (size_t_of_int slave_namesz) of
                         None \<Rightarrow> None
                       | Some copied \<Rightarrow>
                           (case terminate_at copied slave_namesz of
                              None \<Rightarrow> None
                            | Some named \<Rightarrow> Some (Some named)))) of
              None \<Rightarrow> Out_of_bounds
            | Some sn' \<Rightarrow>
                (let pid = pty_fork_ret env
                 in if pid = - 1 \<or> pid = 0 then
                      (if child_attach_ok env then Result (0, fd_master, sn') else Ended)
                    else Result (pid, fd_master, sn'))))"


section \<open>Verification of the codec\<close>

subsection \<open>Nibbles and the table\<close>

lemma mask_0F: "(0x0F :: uint8_t) = mask 4"
  by (simp add: mask_eq_exp_minus_1)

lemma mask_F0: "(0xF0 :: uint8_t) = push_bit 4 (mask 4)"
  by (simp add: mask_eq_exp_minus_1)

lemma unat_nibble: "unat (0x0F AND (x :: uint8_t)) < 16"
proof -
  have "unat (0x0F AND x) \<le> unat (0x0F :: uint8_t)"
    by (rule word_and_le2 [THEN word_le_nat_alt [THEN iffD1]])
  then show ?thesis by simp
qed

lemma nibble_cases:
  fixes x :: uint8_t
  shows "0x0F AND x \<in> {0, 1, 2, 3, 4, 5, 6, 7, 8, 9, 10, 11, 12, 13, 14, 15}"
proof -
  define k where "k = unat (0x0F AND x)"
  have "k < 16" unfolding k_def by (rule unat_nibble)
  then have "k \<in> {0, 1, 2, 3, 4, 5, 6, 7, 8, 9, 10, 11, 12, 13, 14, 15}"
    by simp arith
  moreover have "0x0F AND x = of_nat k" unfolding k_def by simp
  ultimately show ?thesis by auto
qed

lemma u8toc_nibble:
  assumes "n \<in> {0, 1, 2, 3, 4, 5, 6, 7, 8, 9, 10, 11, 12, 13, 14, 15 :: uint8_t}"
  shows "find (\<lambda>e. n = num e) (take 16 u8nct) = Some \<lparr>num = n, rep = hex_digit n\<rparr>"
  using assms by (auto simp add: u8nct_def hex_digit_def)

lemma ctou8_hex_digit:
  assumes "n \<in> {0, 1, 2, 3, 4, 5, 6, 7, 8, 9, 10, 11, 12, 13, 14, 15 :: uint8_t}"
  shows "ctou8 (hex_digit n) = n"
  using assms by (auto simp add: ctou8_def u8nct_def hex_digit_def)

lemma u8toc_eq:
  "u8toc hc lc b = (hex_digit (0x0F AND b), hex_digit (0x0F AND drop_bit 4 b))"
  by (simp add: u8toc_def Let_def u8toc_nibble [OF nibble_cases])

lemma recombine:
  "(0xF0 AND push_bit 4 (0x0F AND drop_bit 4 b)) OR (0x0F AND (0x0F AND b)) = (b :: uint8_t)"
  unfolding mask_0F mask_F0
  by (rule bit_word_eqI) (auto simp add: bit_simps)

lemma decode_encode_byte:
  "(0xF0 AND push_bit 4 (ctou8 (hex_digit (0x0F AND drop_bit 4 b)))) OR
   (0x0F AND ctou8 (hex_digit (0x0F AND b))) = b"
  by (simp only: ctou8_hex_digit [OF nibble_cases] recombine)

subsection \<open>The two loops\<close>

lemma u8nprints_loop_spec:
  "i \<le> brs \<Longrightarrow> brs \<le> length inp \<Longrightarrow> 2 * brs \<le> length out \<Longrightarrow>
   \<exists>out'. u8nprints_loop i brs inp out = Some (brs, out') \<and> length out' = length out \<and>
     (\<forall>j < length out. out' ! j = (if 2 * i \<le> j \<and> j < 2 * brs then enc_char inp j else out ! j))"
proof (induction i brs inp out rule: u8nprints_loop.induct)
  case (1 i brs inp out)
  show ?case
  proof (cases "i < brs")
    case False
    with "1.prems" have "i = brs" by simp
    then show ?thesis by (auto simp add: u8nprints_loop.simps)
  next
    case True
    define hc where "hc = hex_digit (0x0F AND (inp ! i))"
    define lc where "lc = hex_digit (0x0F AND drop_bit 4 (inp ! i))"
    define out1 where "out1 = out[2 * i := lc, 2 * i + 1 := hc]"
    have inb: "i < length inp \<and> 2 * i + 1 < length out"
      using True "1.prems" by simp
    have u: "u8toc (out ! (2 * i + 1)) (out ! (2 * i)) (inp ! i) = (hc, lc)"
      by (simp add: u8toc_eq hc_def lc_def)
    have step: "u8nprints_loop i brs inp out = u8nprints_loop (i + 1) brs inp out1"
      using True inb u by (subst u8nprints_loop.simps) (simp add: out1_def)
    have "\<exists>out'. u8nprints_loop (i + 1) brs inp out1 = Some (brs, out') \<and>
            length out' = length out1 \<and>
            (\<forall>j < length out1. out' ! j =
               (if 2 * (i + 1) \<le> j \<and> j < 2 * brs then enc_char inp j else out1 ! j))"
      unfolding out1_def
      by (rule "1.IH" [OF True inb u [symmetric]]) (use True "1.prems" in simp_all)
    then obtain out' where o: "u8nprints_loop (i + 1) brs inp out1 = Some (brs, out')"
      "length out' = length out1"
      "\<forall>j < length out1. out' ! j =
               (if 2 * (i + 1) \<le> j \<and> j < 2 * brs then enc_char inp j else out1 ! j)"
      by blast
    have len1: "length out1 = length out" by (simp add: out1_def)
    have e0: "enc_char inp (2 * i) = lc" by (simp add: enc_char_def lc_def)
    have e1: "enc_char inp (2 * i + 1) = hc" by (simp add: enc_char_def hc_def)
    have "\<forall>j < length out. out' ! j =
            (if 2 * i \<le> j \<and> j < 2 * brs then enc_char inp j else out ! j)"
    proof (intro allI impI)
      fix j assume j: "j < length out"
      consider "j = 2 * i" | "j = 2 * i + 1" | "j < 2 * i" | "2 * (i + 1) \<le> j" by atomize_elim arith
      then show "out' ! j = (if 2 * i \<le> j \<and> j < 2 * brs then enc_char inp j else out ! j)"
      proof cases
        case 1
        then show ?thesis using o(3) j len1 True e0 inb by (simp add: out1_def)
      next
        case 2
        then show ?thesis using o(3) j len1 True e1 inb by (simp add: out1_def)
      next
        case 3
        then show ?thesis using o(3) j len1 by (simp add: out1_def)
      next
        case 4
        then show ?thesis using o(3) j len1 by (simp add: out1_def)
      qed
    qed
    with o(1,2) step len1 show ?thesis by simp
  qed
qed

lemma snprintu8_loop_spec:
  "shift \<le> 1 \<Longrightarrow> shift \<le> i \<Longrightarrow> i \<le> os \<Longrightarrow> 2 * os \<le> length inp + shift \<Longrightarrow>
   os \<le> length out \<Longrightarrow>
   \<exists>out'. snprintu8_loop i os shift inp out = Some (os, out') \<and> length out' = length out \<and>
     (\<forall>j < length out. out' ! j =
        (if i \<le> j \<and> j < os then pair_byte (inp ! (2 * j - shift)) (inp ! (2 * j + 1 - shift))
         else out ! j))"
proof (induction i os shift inp out rule: snprintu8_loop.induct)
  case (1 i os shift inp out)
  show ?case
  proof (cases "i < os")
    case False
    with "1.prems" have "i = os" by simp
    then show ?thesis by (auto simp add: snprintu8_loop.simps)
  next
    case True
    define b where "b = pair_byte (inp ! (2 * i - shift)) (inp ! (2 * i + 1 - shift))"
    define out1 where "out1 = out[i := (0xF0 AND push_bit 4 (ctou8 (inp ! (i * 2 + 1 - shift - 1))))
                                    OR (0x0F AND ctou8 (inp ! (i * 2 + 1 - shift)))]"
    have inb: "i * 2 + 1 - shift < length inp \<and> i < length out"
      using True "1.prems" by simp
    have idx: "i * 2 + 1 - shift - 1 = 2 * i - shift"
      using "1.prems" by simp
    have out1: "out1 = out[i := b]"
      by (simp add: out1_def b_def pair_byte_def idx mult.commute)
    have step: "snprintu8_loop i os shift inp out = snprintu8_loop (i + 1) os shift inp out1"
      using True inb
      by (subst snprintu8_loop.simps) (simp add: out1_def Let_def)
    have "\<exists>out'. snprintu8_loop (i + 1) os shift inp out1 = Some (os, out') \<and>
            length out' = length out1 \<and>
            (\<forall>j < length out1. out' ! j =
               (if i + 1 \<le> j \<and> j < os
                then pair_byte (inp ! (2 * j - shift)) (inp ! (2 * j + 1 - shift))
                else out1 ! j))"
      unfolding out1_def
      by (rule "1.IH" [OF True refl inb refl refl]) (use True "1.prems" in simp_all)
    then obtain out' where o: "snprintu8_loop (i + 1) os shift inp out1 = Some (os, out')"
      "length out' = length out1"
      "\<forall>j < length out1. out' ! j =
               (if i + 1 \<le> j \<and> j < os
                then pair_byte (inp ! (2 * j - shift)) (inp ! (2 * j + 1 - shift))
                else out1 ! j)"
      by blast
    have len1: "length out1 = length out" by (simp add: out1)
    have "\<forall>j < length out. out' ! j =
            (if i \<le> j \<and> j < os
             then pair_byte (inp ! (2 * j - shift)) (inp ! (2 * j + 1 - shift))
             else out ! j)"
    proof (intro allI impI)
      fix j assume j: "j < length out"
      consider "j = i" | "j < i" | "i + 1 \<le> j" by atomize_elim arith
      then show "out' ! j = (if i \<le> j \<and> j < os
             then pair_byte (inp ! (2 * j - shift)) (inp ! (2 * j + 1 - shift))
             else out ! j)"
      proof cases
        case 1
        then show ?thesis using o(3) j len1 True by (simp add: out1 b_def)
      next
        case 2
        then show ?thesis using o(3) j len1 by (simp add: out1)
      next
        case 3
        then show ?thesis using o(3) j len1 by (simp add: out1)
      qed
    qed
    with o(1,2) step len1 show ?thesis by simp
  qed
qed

subsection \<open>The functions on buffers that are large enough\<close>

lemma size_t_small: "n < 2 ^ 64 \<Longrightarrow> size_t n = n"
  by (simp add: size_t_def)

lemma u8nprints_spec:
  assumes "2 * length inp < 2 ^ 64" "2 * length inp \<le> out_size" "out_size \<le> length out"
  shows "\<exists>out'. u8nprints out out_size inp (length inp) = Some (2 * length inp, out') \<and>
           length out' = length out \<and>
           (\<forall>j < length out. out' ! j = (if j < 2 * length inp then enc_char inp j else out ! j))"
proof -
  obtain out' where o: "u8nprints_loop 0 (length inp) inp out = Some (length inp, out')"
    "length out' = length out"
    "\<forall>j < length out. out' ! j =
       (if 2 * 0 \<le> j \<and> j < 2 * length inp then enc_char inp j else out ! j)"
    using u8nprints_loop_spec [of 0 "length inp" inp out] assms by auto
  have st: "size_t (length inp * 2) = length inp * 2"
    using assms(1) by (simp add: size_t_small mult.commute)
  have "u8nprints out out_size inp (length inp) = Some (2 * length inp, out')"
    unfolding u8nprints_def Let_def st using assms o(1) st by simp
  with o(2,3) show ?thesis by simp
qed

lemma snprintu8_spec:
  assumes "in_size \<le> length inp" "in_size div 2 + in_size mod 2 \<le> out_size"
    "out_size \<le> length out"
  shows "\<exists>out'. snprintu8 out out_size inp in_size = Some (in_size div 2 + in_size mod 2, out') \<and>
           length out' = length out \<and>
           (\<forall>j < length out. out' ! j =
              (if j < in_size mod 2 then 0x0F AND ctou8 (inp ! 0)
               else if j < in_size div 2 + in_size mod 2
               then pair_byte (inp ! (2 * j - in_size mod 2)) (inp ! (2 * j + 1 - in_size mod 2))
               else out ! j))"
proof (cases "in_size mod 2 = 1")
  case True
  define os where "os = in_size div 2 + 1"
  define out1 where "out1 = out[0 := 0x0F AND ctou8 (inp ! 0)]"
  have pos: "0 < length inp" "0 < length out" using True assms by auto
  have unf: "snprintu8 out out_size inp in_size = snprintu8_loop 1 os 1 inp out1"
    using True assms pos by (simp add: snprintu8_def os_def out1_def)
  have sz: "in_size = 2 * (in_size div 2) + 1" using True by presburger
  have "\<exists>out'. snprintu8_loop 1 os 1 inp out1 = Some (os, out') \<and>
    length out' = length out1 \<and>
    (\<forall>j < length out1. out' ! j =
       (if 1 \<le> j \<and> j < os then pair_byte (inp ! (2 * j - 1)) (inp ! (2 * j + 1 - 1))
        else out1 ! j))"
  proof (rule snprintu8_loop_spec)
    show "2 * os \<le> length inp + 1" using sz assms(1) unfolding os_def by arith
    show "os \<le> length out1" using True assms(2,3) unfolding os_def out1_def by simp
  qed (simp_all add: os_def)
  then obtain out' where o: "snprintu8_loop 1 os 1 inp out1 = Some (os, out')"
    "length out' = length out"
    "\<forall>j < length out. out' ! j =
       (if 1 \<le> j \<and> j < os then pair_byte (inp ! (2 * j - 1)) (inp ! (2 * j + 1 - 1))
        else out1 ! j)"
    by (auto simp add: out1_def)
  have "\<forall>j < length out. out' ! j =
              (if j < in_size mod 2 then 0x0F AND ctou8 (inp ! 0)
               else if j < in_size div 2 + in_size mod 2
               then pair_byte (inp ! (2 * j - in_size mod 2)) (inp ! (2 * j + 1 - in_size mod 2))
               else out ! j)"
    using o(3) True pos by (auto simp add: os_def out1_def)
  with o(1,2) unf True show ?thesis by (simp add: os_def)
next
  case False
  then have z: "in_size mod 2 = 0" by simp
  define os where "os = in_size div 2"
  have unf: "snprintu8 out out_size inp in_size = snprintu8_loop 0 os 0 inp out"
    using z assms by (auto simp add: snprintu8_def os_def snprintu8_loop.simps)
  obtain out' where o: "snprintu8_loop 0 os 0 inp out = Some (os, out')"
    "length out' = length out"
    "\<forall>j < length out. out' ! j =
       (if 0 \<le> j \<and> j < os then pair_byte (inp ! (2 * j - 0)) (inp ! (2 * j + 1 - 0))
        else out ! j)"
    using snprintu8_loop_spec [of 0 0 os inp out] z assms
    by (auto simp add: os_def)
  show ?thesis
    using z o unf by (auto simp add: os_def)
qed

lemma pair_byte_enc:
  "pair_byte (enc_char inp (2 * j)) (enc_char inp (2 * j + 1)) = inp ! j"
  by (simp add: pair_byte_def enc_char_def decode_encode_byte)

lemma round_trip_any_length:
  assumes "2 * length B < 2 ^ 64" "2 * length B \<le> csize" "csize \<le> length cbuf"
    "length B \<le> bsize" "bsize \<le> length bbuf"
  shows "\<exists>s r. u8nprints cbuf csize B (length B) = Some (2 * length B, s) \<and>
           snprintu8 bbuf bsize s (2 * length B) = Some (length B, r) \<and>
           take (length B) r = B"
proof -
  obtain s where s: "u8nprints cbuf csize B (length B) = Some (2 * length B, s)"
    "length s = length cbuf"
    "\<forall>j < length cbuf. s ! j = (if j < 2 * length B then enc_char B j else cbuf ! j)"
    using u8nprints_spec [OF assms(1,2,3)] by blast
  have "\<exists>r. snprintu8 bbuf bsize s (2 * length B) =
            Some ((2 * length B) div 2 + (2 * length B) mod 2, r) \<and>
          length r = length bbuf \<and>
          (\<forall>j < length bbuf. r ! j =
              (if j < (2 * length B) mod 2 then 0x0F AND ctou8 (s ! 0)
               else if j < (2 * length B) div 2 + (2 * length B) mod 2
               then pair_byte (s ! (2 * j - (2 * length B) mod 2))
                      (s ! (2 * j + 1 - (2 * length B) mod 2))
               else bbuf ! j))"
    by (rule snprintu8_spec) (use assms s(2) in simp_all)
  then obtain r where r: "snprintu8 bbuf bsize s (2 * length B) = Some (length B, r)"
    "length r = length bbuf"
    "\<forall>j < length bbuf. r ! j =
        (if j < length B then pair_byte (s ! (2 * j)) (s ! (2 * j + 1)) else bbuf ! j)"
    by auto
  have "take (length B) r = B"
  proof (rule nth_equalityI)
    show "length (take (length B) r) = length B" using r(2) assms by simp
  next
    fix j assume "j < length (take (length B) r)"
    then have j: "j < length B" by simp
    then have jb: "j < length bbuf" "2 * j < length cbuf" "2 * j + 1 < length cbuf"
      using assms by simp_all
    have "r ! j = pair_byte (s ! (2 * j)) (s ! (2 * j + 1))" using r(3) j jb by simp
    also have "\<dots> = pair_byte (enc_char B (2 * j)) (enc_char B (2 * j + 1))"
      using s(3) j jb by simp
    also have "\<dots> = B ! j" by (rule pair_byte_enc)
    finally show "take (length B) r ! j = B ! j" using j by simp
  qed
  with s(1) r(1) show ?thesis by blast
qed

subsection \<open>The codec statements\<close>

lemma hex_digit_lowercase: "hex_digit (0x0F AND x) \<in> set ''0123456789abcdef''"
proof -
  have "\<And>n. n \<in> {0, 1, 2, 3, 4, 5, 6, 7, 8, 9, 10, 11, 12, 13, 14, 15 :: uint8_t} \<Longrightarrow>
          hex_digit n \<in> set ''0123456789abcdef''"
    by (auto simp add: hex_digit_def)
  then show ?thesis using nibble_cases by blast
qed

lemma enc_char_lowercase: "enc_char inp j \<in> set ''0123456789abcdef''"
  unfolding enc_char_def using hex_digit_lowercase by (simp del: set_simps)

text \<open>
  Claim C1 (codec round-trip law). For every byte sequence \<open>B\<close> of even length, encoding
  \<open>B\<close> with \<open>u8nprints\<close> and decoding the characters it produced with \<open>snprintu8\<close>
  gives \<open>B\<close> again, when the character buffer has room for \<open>2 * length B\<close> characters,
  the byte buffer has room for \<open>length B\<close> bytes, and \<open>2 * length B\<close> is a \<open>size_t\<close>.
  Both calls return (no access outside a buffer), the decoder returns \<open>length B\<close> and
  the first \<open>length B\<close> bytes of its output buffer are \<open>B\<close>. The hypothesis on the
  parity is the claim's; \<open>round_trip_any_length\<close> shows that the code does not need it.
\<close>

theorem codec_round_trip:
  assumes "even (length B)" "2 * length B < 2 ^ 64"
    "2 * length B \<le> csize" "csize \<le> length cbuf"
    "length B \<le> bsize" "bsize \<le> length bbuf"
  shows "case u8nprints cbuf csize B (length B) of
           None \<Rightarrow> False
         | Some (m, s) \<Rightarrow>
             (case snprintu8 bbuf bsize s m of
                None \<Rightarrow> False
              | Some (k, r) \<Rightarrow> k = length B \<and> take k r = B)"
  using round_trip_any_length [OF assms(2-6)] by auto

theorem codec_round_trip_witness:
  "even (length [0x74, 0x5A :: uint8_t]) \<and> 2 * length [0x74, 0x5A :: uint8_t] < 2 ^ 64 \<and>
   2 * length [0x74, 0x5A :: uint8_t] \<le> 4 \<and> 4 \<le> length ''xxxx'' \<and>
   length [0x74, 0x5A :: uint8_t] \<le> 2 \<and> 2 \<le> length [0, 0 :: uint8_t] \<and>
   (case u8nprints ''xxxx'' 4 [0x74, 0x5A] (length [0x74, 0x5A :: uint8_t]) of
      None \<Rightarrow> False
    | Some (m, s) \<Rightarrow>
        (case snprintu8 [0, 0] 2 s m of
           None \<Rightarrow> False
         | Some (k, r) \<Rightarrow> k = length [0x74, 0x5A :: uint8_t] \<and> take k r = [0x74, 0x5A])) \<and>
   u8nprints ''xxxx'' 4 [0x74, 0x5A] 2 = Some (4, ''745a'') \<and>
   snprintu8 [0, 0] 2 ''745a'' 4 = Some (2, [0x74, 0x5A])"
proof -
  have h: "even (length [0x74, 0x5A :: uint8_t])" "2 * length [0x74, 0x5A :: uint8_t] < 2 ^ 64"
    "2 * length [0x74, 0x5A :: uint8_t] \<le> 4" "4 \<le> length ''xxxx''"
    "length [0x74, 0x5A :: uint8_t] \<le> 2" "2 \<le> length [0, 0 :: uint8_t]"
    by simp_all
  have e: "u8nprints ''xxxx'' 4 [0x74, 0x5A] 2 = Some (4, ''745a'')"
    by (simp add: u8nprints_def size_t_def u8nprints_loop.simps u8toc_def u8nct_def)
  have d: "snprintu8 [0, 0] 2 ''745a'' 4 = Some (2, [0x74, 0x5A])"
    by code_simp
  from codec_round_trip [OF h] h e d show ?thesis by blast
qed

text \<open>
  Claim C6 (shape of the ASCII-to-HEX encoding). For every byte sequence of length \<open>n\<close>
  and an output buffer of at least \<open>2 * n\<close> characters, \<open>u8nprints\<close> returns \<open>2 * n\<close>;
  for each input byte \<open>i\<close> the digit of its high nibble stands at index \<open>2 * i\<close> and the
  digit of its low nibble at index \<open>2 * i + 1\<close>; each of the \<open>2 * n\<close> characters is a
  lowercase hexadecimal digit; and the buffer beyond them is left as it was.
\<close>

theorem u8nprints_shape:
  assumes "2 * length inp < 2 ^ 64" "2 * length inp \<le> out_size" "out_size \<le> length out"
  shows "case u8nprints out out_size inp (length inp) of
           None \<Rightarrow> False
         | Some (m, out') \<Rightarrow>
             m = 2 * length inp \<and> length out' = length out \<and>
             (\<forall>i < length inp.
                out' ! (2 * i) = hex_digit (0x0F AND drop_bit 4 (inp ! i)) \<and>
                out' ! (2 * i + 1) = hex_digit (0x0F AND (inp ! i))) \<and>
             (\<forall>j < m. out' ! j \<in> set ''0123456789abcdef'') \<and>
             (\<forall>j. m \<le> j \<and> j < length out \<longrightarrow> out' ! j = out ! j)"
proof -
  obtain out' where o: "u8nprints out out_size inp (length inp) = Some (2 * length inp, out')"
    "length out' = length out"
    "\<forall>j < length out. out' ! j = (if j < 2 * length inp then enc_char inp j else out ! j)"
    using u8nprints_spec [OF assms] by blast
  have a: "\<forall>i < length inp.
             out' ! (2 * i) = hex_digit (0x0F AND drop_bit 4 (inp ! i)) \<and>
             out' ! (2 * i + 1) = hex_digit (0x0F AND (inp ! i))"
  proof (intro allI impI)
    fix i assume i: "i < length inp"
    then have "2 * i < length out" "2 * i + 1 < length out" "2 * i < 2 * length inp"
      "2 * i + 1 < 2 * length inp" using assms by simp_all
    then have "out' ! (2 * i) = enc_char inp (2 * i)" "out' ! (2 * i + 1) = enc_char inp (2 * i + 1)"
      using o(3) by simp_all
    then show "out' ! (2 * i) = hex_digit (0x0F AND drop_bit 4 (inp ! i)) \<and>
             out' ! (2 * i + 1) = hex_digit (0x0F AND (inp ! i))"
      by (simp add: enc_char_def)
  qed
  have b: "\<forall>j < 2 * length inp. out' ! j \<in> set ''0123456789abcdef''"
  proof (intro allI impI)
    fix j assume "j < 2 * length inp"
    then have "out' ! j = enc_char inp j" using o(3) assms by simp
    then show "out' ! j \<in> set ''0123456789abcdef''" by (simp only: enc_char_lowercase)
  qed
  have c: "\<forall>j. 2 * length inp \<le> j \<and> j < length out \<longrightarrow> out' ! j = out ! j"
    using o(3) by simp
  show ?thesis using o(1,2) a b c by simp
qed

theorem u8nprints_shape_witness:
  "2 * length [0x74, 0x5A :: uint8_t] < 2 ^ 64 \<and> 2 * length [0x74, 0x5A :: uint8_t] \<le> 4 \<and>
   4 \<le> length ''xxxxx'' \<and>
   u8nprints ''xxxxx'' 4 [0x74, 0x5A] 2 = Some (4, ''745ax'') \<and>
   (case u8nprints ''xxxxx'' 4 [0x74, 0x5A] (length [0x74, 0x5A :: uint8_t]) of
           None \<Rightarrow> False
         | Some (m, out') \<Rightarrow>
             m = 2 * length [0x74, 0x5A :: uint8_t] \<and> length out' = length ''xxxxx'' \<and>
             (\<forall>i < length [0x74, 0x5A :: uint8_t].
                out' ! (2 * i) = hex_digit (0x0F AND drop_bit 4 ([0x74, 0x5A] ! i)) \<and>
                out' ! (2 * i + 1) = hex_digit (0x0F AND ([0x74, 0x5A] ! i))) \<and>
             (\<forall>j < m. out' ! j \<in> set ''0123456789abcdef'') \<and>
             (\<forall>j. m \<le> j \<and> j < length ''xxxxx'' \<longrightarrow> out' ! j = ''xxxxx'' ! j))"
proof -
  have e: "u8nprints ''xxxxx'' 4 [0x74, 0x5A] 2 = Some (4, ''745ax'')"
    by (simp add: u8nprints_def size_t_def u8nprints_loop.simps u8toc_def u8nct_def)
  have h: "2 * length [0x74, 0x5A :: uint8_t] < 2 ^ 64" "2 * length [0x74, 0x5A :: uint8_t] \<le> 4"
    "4 \<le> length ''xxxxx''" by simp_all
  from u8nprints_shape [OF h] e h show ?thesis by blast
qed

text \<open>
  Claim C2 reads an odd-length input as pairs from the start, with the leftover character
  at the end as a low nibble. On the three characters \<open>''123''\<close> that reading gives the
  bytes \<open>0x12, 0x03\<close>; \<open>snprintu8\<close> returns \<open>0x01, 0x23\<close>.
\<close>

theorem snprintu8_odd_tail_counterexample:
  "snprintu8 [0, 0] 2 ''123'' 3 = Some (2, [0x01, 0x23]) \<and>
   [0x01, 0x23] \<noteq> [pair_byte CHR ''1'' CHR ''2'', 0x0F AND ctou8 CHR ''3'']"
proof -
  have "snprintu8 [0, 0] 2 ''123'' 3 = Some (2, [0x01, 0x23])" by code_simp
  moreover have "pair_byte CHR ''1'' CHR ''2'' = 0x12"
    by (simp add: pair_byte_def ctou8_def u8nct_def)
  ultimately show ?thesis by simp
qed

text \<open>
  Claim C2, as the code has it (the header's example \<open>C0 2A 50 1\<close> gives
  \<open>0C 02 A5 01\<close>, and the source says "decide if leading 0 is to append"). For every
  input of odd length \<open>2 * k + 1\<close> and an output buffer of at least \<open>k + 1\<close> bytes,
  \<open>snprintu8\<close> returns \<open>k + 1\<close>; the FIRST character of the input is the one treated as
  a single low nibble with high nibble zero, and it gives output byte 0; output byte \<open>j\<close>,
  for \<open>1 \<le> j \<le> k\<close>, comes from the pair of characters at \<open>2 * j - 1\<close> and \<open>2 * j\<close>.
\<close>

theorem snprintu8_odd_leading_nibble:
  assumes "in_size = 2 * k + 1" "in_size \<le> length inp" "k + 1 \<le> out_size"
    "out_size \<le> length out"
  shows "case snprintu8 out out_size inp in_size of
           None \<Rightarrow> False
         | Some (m, out') \<Rightarrow>
             m = k + 1 \<and>
             out' ! 0 = 0x0F AND ctou8 (inp ! 0) \<and>
             (\<forall>j. 1 \<le> j \<and> j \<le> k \<longrightarrow>
                out' ! j = pair_byte (inp ! (2 * j - 1)) (inp ! (2 * j)))"
proof -
  have dm: "in_size div 2 = k" "in_size mod 2 = 1" using assms(1) by simp_all
  have "\<exists>out'. snprintu8 out out_size inp in_size = Some (in_size div 2 + in_size mod 2, out') \<and>
           length out' = length out \<and>
           (\<forall>j < length out. out' ! j =
              (if j < in_size mod 2 then 0x0F AND ctou8 (inp ! 0)
               else if j < in_size div 2 + in_size mod 2
               then pair_byte (inp ! (2 * j - in_size mod 2)) (inp ! (2 * j + 1 - in_size mod 2))
               else out ! j))"
    by (rule snprintu8_spec) (use assms dm in simp_all)
  then obtain out' where o: "snprintu8 out out_size inp in_size = Some (k + 1, out')"
    "\<forall>j < length out. out' ! j =
              (if j < 1 then 0x0F AND ctou8 (inp ! 0)
               else if j < k + 1
               then pair_byte (inp ! (2 * j - 1)) (inp ! (2 * j))
               else out ! j)"
    unfolding dm by auto
  have len: "k + 1 \<le> length out" using assms by simp
  have "0 < length out" using len by (cases out) simp_all
  then have "out' ! 0 = 0x0F AND ctou8 (inp ! 0)" using o(2) by auto
  moreover have "\<forall>j. 1 \<le> j \<and> j \<le> k \<longrightarrow>
                out' ! j = pair_byte (inp ! (2 * j - 1)) (inp ! (2 * j))"
  proof (intro allI impI)
    fix j assume j: "1 \<le> j \<and> j \<le> k"
    then have "j < length out" "\<not> j < 1" "j < k + 1" using len by simp_all
    then show "out' ! j = pair_byte (inp ! (2 * j - 1)) (inp ! (2 * j))"
      using o(2) by simp
  qed
  ultimately show ?thesis using o(1) by simp
qed

theorem snprintu8_odd_leading_nibble_witness:
  "(3 :: nat) = 2 * 1 + 1 \<and> 3 \<le> length ''123'' \<and> (1 :: nat) + 1 \<le> 2 \<and>
   2 \<le> length [0, 0 :: uint8_t] \<and>
   (case snprintu8 [0, 0] 2 ''123'' 3 of
      None \<Rightarrow> False
    | Some (m, out') \<Rightarrow>
        m = 1 + 1 \<and>
        out' ! 0 = 0x0F AND ctou8 (''123'' ! 0) \<and>
        (\<forall>j. 1 \<le> j \<and> j \<le> 1 \<longrightarrow>
           out' ! j = pair_byte (''123'' ! (2 * j - 1)) (''123'' ! (2 * j)))) \<and>
   snprintu8 [0, 0] 2 ''123'' 3 = Some (2, [0x01, 0x23])"
proof -
  have h: "(3 :: nat) = 2 * 1 + 1" "3 \<le> length ''123''" "(1 :: nat) + 1 \<le> 2"
    "2 \<le> length [0, 0 :: uint8_t]" by simp_all
  have e: "snprintu8 [0, 0] 2 ''123'' 3 = Some (2, [0x01, 0x23])" by code_simp
  from snprintu8_odd_leading_nibble [OF h] h e show ?thesis by blast
qed

text \<open>
  Claim C7 (case insensitivity of the decoder) fails at the digit \<open>F\<close>. The table has 22
  entries and its last one is \<open>{ 0x0F, 'F' }\<close>, but the loop of \<open>_ctou8\<close> runs over
  \<open>i<21\<close> and never reaches it: \<open>F\<close> decodes to 0 and \<open>f\<close> to 15, so \<open>''4F''\<close> and
  \<open>''4f''\<close> decode to different bytes. The other five letters agree in both cases
  (\<open>ctou8_case_insensitive_below_F\<close>).
\<close>

theorem ctou8_upper_F_decodes_zero:
  "ctou8 CHR ''F'' = 0x00 \<and> ctou8 CHR ''f'' = 0x0F \<and>
   snprintu8 [0] 1 ''4F'' 2 = Some (1, [0x40]) \<and>
   snprintu8 [0] 1 ''4f'' 2 = Some (1, [0x4F])"
proof -
  have "ctou8 CHR ''F'' = 0x00" "ctou8 CHR ''f'' = 0x0F"
    by (simp_all add: ctou8_def u8nct_def)
  moreover have "snprintu8 [0] 1 ''4F'' 2 = Some (1, [0x40])" by code_simp
  moreover have "snprintu8 [0] 1 ''4f'' 2 = Some (1, [0x4F])" by code_simp
  ultimately show ?thesis by simp
qed

lemma ctou8_case_insensitive_below_F:
  "ctou8 CHR ''A'' = ctou8 CHR ''a'' \<and> ctou8 CHR ''B'' = ctou8 CHR ''b'' \<and>
   ctou8 CHR ''C'' = ctou8 CHR ''c'' \<and> ctou8 CHR ''D'' = ctou8 CHR ''d'' \<and>
   ctou8 CHR ''E'' = ctou8 CHR ''e''"
  by (simp add: ctou8_def u8nct_def)

lemma ctou8_not_hex: "c \<notin> set ''0123456789abcdefABCDEF'' \<Longrightarrow> ctou8 c = 0x00"
  by (simp add: ctou8_def u8nct_def)

lemma ctou8_zero_digit: "ctou8 CHR ''0'' = 0x00"
  by (simp add: ctou8_def u8nct_def)

lemma snprintu8_two_chars:
  "snprintu8 out out_size [c, d] 2 =
     (if out_size = 0 then Some (0, out)
      else if 0 < length out then Some (1, out[0 := pair_byte c d]) else None)"
  by (simp add: snprintu8_def snprintu8_loop.simps [of 0] snprintu8_loop.simps [of 1]
      snprintu8_loop.simps [of "Suc 0"] pair_byte_def Let_def)

text \<open>
  Claim C8 (invalid characters decode as nibble zero). For every character outside
  \<open>[0-9a-fA-F]\<close>, \<open>_ctou8\<close> returns 0 without any error, so a pair of characters that
  begins with such a character decodes exactly as the pair that begins with \<open>0\<close> does:
  \<open>''G1''\<close> gives the same result as \<open>''01''\<close>.
\<close>

theorem ctou8_invalid_is_zero:
  assumes "c \<notin> set ''0123456789abcdefABCDEF''"
  shows "ctou8 c = 0x00 \<and>
         snprintu8 out out_size [c, d] 2 = snprintu8 out out_size [CHR ''0'', d] 2"
  using ctou8_not_hex [OF assms]
  by (simp add: snprintu8_two_chars pair_byte_def ctou8_zero_digit)

theorem ctou8_invalid_is_zero_witness:
  "CHR ''G'' \<notin> set ''0123456789abcdefABCDEF'' \<and> ctou8 CHR ''G'' = 0x00 \<and>
   snprintu8 [0] 1 ''G1'' 2 = snprintu8 [0] 1 ''01'' 2 \<and>
   snprintu8 [0] 1 ''01'' 2 = Some (1, [0x01])"
proof -
  have h: "CHR ''G'' \<notin> set ''0123456789abcdefABCDEF''" by simp
  have e: "snprintu8 [0] 1 ''01'' 2 = Some (1, [0x01])" by code_simp
  from ctou8_invalid_is_zero [OF h, of "[0]" 1 "CHR ''1''"] h e show ?thesis by simp
qed

section \<open>Verification of \<open>full_write\<close>\<close>

lemma ssize_t_id: "- (2 ^ 63) \<le> x \<Longrightarrow> x < 2 ^ 63 \<Longrightarrow> ssize_t x = x"
  by (simp add: ssize_t_def)

lemma full_write_loop_complete:
  "\<forall>w \<in> set ws. w \<noteq> Wfail \<Longrightarrow> remaining = length buf \<Longrightarrow>
   length buf \<le> sum_list (map accepted ws) \<Longrightarrow> 0 \<le> tot \<Longrightarrow>
   tot + int (length buf) < 2 ^ 63 \<Longrightarrow>
   full_write_loop ws buf remaining tot dev = Some (tot + int (length buf), dev @ buf)"
proof (induction ws arbitrary: buf remaining tot dev)
  case Nil
  then show ?case by simp
next
  case (Cons w ws)
  show ?case
  proof (cases "remaining > 0")
    case False
    with Cons.prems show ?thesis by simp
  next
    case True
    from Cons.prems(1) obtain k where w: "w = Waccept k" by (cases w) auto
    define m where "m = min k remaining"
    have cc: "write_ret w remaining = int m" by (simp add: w write_ret_def m_def)
    have m_le: "m \<le> length buf" using Cons.prems(2) by (simp add: m_def)
    have wrap: "ssize_t (tot + int m) = tot + int m"
      using Cons.prems(4,5) m_le by (intro ssize_t_id) simp_all
    have step: "full_write_loop (w # ws) buf remaining tot dev =
                full_write_loop ws (drop m buf) (remaining - m) (tot + int m) (dev @ take m buf)"
      using True by (simp add: cc wrap)
    have "full_write_loop ws (drop m buf) (remaining - m) (tot + int m) (dev @ take m buf) =
          Some (tot + int m + int (length (drop m buf)), (dev @ take m buf) @ drop m buf)"
    proof (rule Cons.IH)
      show "\<forall>w \<in> set ws. w \<noteq> Wfail" using Cons.prems(1) by simp
      show "remaining - m = length (drop m buf)" using Cons.prems(2) by simp
      show "length (drop m buf) \<le> sum_list (map accepted ws)"
        using Cons.prems(2,3) by (auto simp add: w m_def min_def)
      show "0 \<le> tot + int m" using Cons.prems(4) by simp
      show "tot + int m + int (length (drop m buf)) < 2 ^ 63"
        using Cons.prems(5) m_le by simp
    qed
    with step m_le show ?thesis by simp
  qed
qed

text \<open>
  Claim C9 (write-until-complete). For every buffer of \<open>len\<close> bytes (\<open>len\<close> within
  \<open>ssize_t\<close>): if no call of \<open>write\<close> fails and the calls together are ready to
  transfer \<open>len\<close> bytes, however short each of them is, \<open>full_write\<close> returns, its
  return value is exactly \<open>len\<close>, and the file has received exactly the bytes of the
  buffer, in order.
\<close>

theorem full_write_complete:
  assumes "Wfail \<notin> set ws"
    and "length buf \<le> sum_list (map accepted ws)"
    and "length buf < 2 ^ 63"
  shows "full_write ws buf (length buf) = Some (int (length buf), buf)"
proof -
  have "\<forall>w \<in> set ws. w \<noteq> Wfail" using assms(1) by auto
  then show ?thesis
    using full_write_loop_complete [of ws "length buf" buf 0 "[]"] assms(2,3)
    by (simp add: full_write_def)
qed

theorem full_write_complete_witness:
  "Wfail \<notin> set [Waccept 2, Waccept 0, Waccept 1, Waccept 5] \<and>
   length ''hello'' \<le> sum_list (map accepted [Waccept 2, Waccept 0, Waccept 1, Waccept 5]) \<and>
   length ''hello'' < 2 ^ 63 \<and>
   full_write [Waccept 2, Waccept 0, Waccept 1, Waccept 5] ''hello'' (length ''hello'') =
     Some (int (length ''hello''), ''hello'') \<and>
   full_write [Waccept 2, Waccept 0, Waccept 1, Waccept 5] ''hello'' 5 = Some (5, ''hello'')"
proof -
  have h: "Wfail \<notin> set [Waccept 2, Waccept 0, Waccept 1, Waccept 5]"
    "length ''hello'' \<le> sum_list (map accepted [Waccept 2, Waccept 0, Waccept 1, Waccept 5])"
    "length ''hello'' < 2 ^ 63"
    by simp_all
  have e: "full_write [Waccept 2, Waccept 0, Waccept 1, Waccept 5] ''hello'' 5 = Some (5, ''hello'')"
    by (simp add: full_write_def write_ret_def ssize_t_def)
  from full_write_complete [OF h] h e show ?thesis by blast
qed

text \<open>
  Two companions that show what the hypotheses are for: while the scripted calls have
  not yet transferred all bytes the function has not returned, and a failing call after
  a short write makes it return the short count.
\<close>

lemma full_write_short_then_error:
  "full_write [Waccept 2, Wfail] ''hello'' 5 = Some (2, ''he'')"
  by (simp add: full_write_def write_ret_def ssize_t_def)

lemma full_write_zero_writes_pending:
  "full_write (replicate n (Waccept 0)) (x # xs) (length (x # xs)) = None"
proof -
  have "full_write_loop (replicate n (Waccept 0)) (x # xs) (Suc (length xs)) tot dev = None"
    for tot dev
    by (induction n arbitrary: tot dev) (simp_all add: write_ret_def)
  then show ?thesis by (simp add: full_write_def)
qed


section \<open>Signals in a trace\<close>

lemma kills_append: "kills (xs @ ys) = kills xs @ kills ys"
  by (simp add: kills_def)

lemma kills_Nil: "kills [] = []"
  by (simp add: kills_def)

lemma kills_Cons: "kills (e # es) = (if is_kill e then e # kills es else kills es)"
  by (simp add: kills_def)


section \<open>Verification of the exit handler\<close>

lemma kills_tty_reset: "kills (snd (tty_reset fd w env)) = []"
  by (simp add: tty_reset_def kills_def Let_def)

lemma kills_free: "kills (free p) = []"
  by (simp add: free_def kills_def split: option.splits)

lemma kills_cleanup:
  "kills (cleanup g env) =
     (if child_pids g > 0 then [SysKill (child_pids g) SIGTERM] else [])"
  by (simp add: cleanup_def kills_append kills_tty_reset kills_free kills_Nil kills_Cons)

text \<open>
  Claim C5 (child liveness invariant). Whatever the other globals and the answers of the
  system calls are: when the recorded pid of the child is live (\<open>child_pids > 0\<close>), the
  exit handler calls \<open>kill\<close> exactly once, with that pid and \<open>SIGTERM\<close>; when no child
  is live it does not call \<open>kill\<close> at all.
\<close>

theorem cleanup_signals_live_child_once:
  "kills (cleanup g env) =
     (if child_pids g > 0 then [SysKill (child_pids g) SIGTERM] else [])"
  by (simp add: cleanup_def kills_append kills_tty_reset kills_free kills_Nil kills_Cons)

theorem cleanup_signals_live_child_once_witness:
  "kills (cleanup \<lparr>fdm = 3, detached = 0, size_set = True, child_pids = 4711, cmd = None,
                    prog = Some 1, prog_list = Some 2, driver = None, driver_list = None\<rparr>
                  \<lparr>kill_ret = 0, tcsetattr_ret = 0, tcsetattr_retry_ret = 0, ioctl_ret = 0\<rparr>) =
     [SysKill 4711 SIGTERM] \<and>
   cleanup \<lparr>fdm = 3, detached = 0, size_set = True, child_pids = 4711, cmd = None,
            prog = Some 1, prog_list = Some 2, driver = None, driver_list = None\<rparr>
           \<lparr>kill_ret = 0, tcsetattr_ret = 0, tcsetattr_retry_ret = 0, ioctl_ret = 0\<rparr> =
     [SysKill 4711 SIGTERM, SysTcsetattr 3, SysIoctlWinsz 3, SysFree 1, SysFree 2] \<and>
   kills (cleanup \<lparr>fdm = 3, detached = 0, size_set = True, child_pids = 0, cmd = None,
                    prog = Some 1, prog_list = Some 2, driver = None, driver_list = None\<rparr>
                  \<lparr>kill_ret = 0, tcsetattr_ret = 0, tcsetattr_retry_ret = 0, ioctl_ret = 0\<rparr>) = []"
proof -
  have e: "cleanup \<lparr>fdm = 3, detached = 0, size_set = True, child_pids = 4711, cmd = None,
            prog = Some 1, prog_list = Some 2, driver = None, driver_list = None\<rparr>
           \<lparr>kill_ret = 0, tcsetattr_ret = 0, tcsetattr_retry_ret = 0, ioctl_ret = 0\<rparr> =
     [SysKill 4711 SIGTERM, SysTcsetattr 3, SysIoctlWinsz 3, SysFree 1, SysFree 2]"
    by (simp add: cleanup_def tty_reset_def free_def)
  show ?thesis
    using e
      cleanup_signals_live_child_once [of "\<lparr>fdm = 3, detached = 0, size_set = True,
        child_pids = 4711, cmd = None, prog = Some 1, prog_list = Some 2, driver = None,
        driver_list = None\<rparr>"
        "\<lparr>kill_ret = 0, tcsetattr_ret = 0, tcsetattr_retry_ret = 0, ioctl_ret = 0\<rparr>"]
      cleanup_signals_live_child_once [of "\<lparr>fdm = 3, detached = 0, size_set = True,
        child_pids = 0, cmd = None, prog = Some 1, prog_list = Some 2, driver = None,
        driver_list = None\<rparr>"
        "\<lparr>kill_ret = 0, tcsetattr_ret = 0, tcsetattr_retry_ret = 0, ioctl_ret = 0\<rparr>"]
    by simp
qed


section \<open>Verification of the relay loops\<close>

subsection \<open>The end-of-file policy, direction by direction\<close>

lemma ptym_child_eof_stops:
  "ptym_child_loop pty_amaster 0 ((0, wret) # io) tr =
     Left_loop 0 (tr @ [SysRead STDIN_FILENO BUFLEN])"
  by simp

lemma ptym_child_eof_ignored:
  "ignore_eof \<noteq> 0 \<Longrightarrow>
   ptym_child_loop pty_amaster ignore_eof ((0, wret) # io) tr =
     ptym_child_loop pty_amaster ignore_eof io (tr @ [SysRead STDIN_FILENO BUFLEN])"
  by simp

lemma ptym_parent_eof_stops:
  "ptym_parent_loop pty_amaster 0 ((0, wret) # io) tr =
     Left_loop 0 (tr @ [SysRead pty_amaster BUFLEN])"
  by simp

lemma ptym_parent_eof_ignored:
  "ptym_parent_loop pty_amaster (- 1) ((0, wret) # io) tr =
     ptym_parent_loop pty_amaster (- 1) io (tr @ [SysRead pty_amaster BUFLEN])"
  by simp

text \<open>
  In \<open>ptym_process_stdio\<close> the parent sets \<open>pac\<close> from \<open>ignore_eof\<close>: with ignore-EOF
  disabled a zero-length first read ends the direction, with it enabled the direction
  is then still reading.
\<close>

lemma ptym_parent_eof_policy:
  "ptym_process_stdio_parent pty_amaster 0 child sigcaught True g env ((0, wret) # io) =
     Returns ([SysRead pty_amaster BUFLEN] @
              (if 0 = sigcaught then [SysKill child SIGTERM] else []))"
  "0 < ignore_eof \<Longrightarrow>
   ptym_process_stdio_parent pty_amaster ignore_eof child sigcaught True g env [(0, wret)] =
     Running [SysRead pty_amaster BUFLEN]"
  by (simp_all add: ptym_process_stdio_parent_def)

lemma lds_child_eof_stops:
  "- 1 < nwrite \<Longrightarrow> - 1 < nread \<Longrightarrow>
   lds_child_loop fd_read 0 translate bufsize linefeed ((Reof, wret, lfret) # io)
     nwrite nread lds_buffer lds_tbuf tr =
   Left_loop 0 (tr @ [SysRead fd_read bufsize])"
  by (simp add: read_ret_def read_buf_def)

lemma lds_child_eof_ignored:
  "ieof \<noteq> 0 \<Longrightarrow> - 1 < nwrite \<Longrightarrow> - 1 < nread \<Longrightarrow>
   lds_child_loop fd_read ieof translate bufsize linefeed ((Reof, wret, lfret) # io)
     nwrite nread lds_buffer lds_tbuf tr =
   lds_child_loop fd_read ieof translate bufsize linefeed io
     nwrite 0 lds_buffer lds_tbuf (tr @ [SysRead fd_read bufsize])"
  by (simp add: read_ret_def read_buf_def)

text \<open>
  The parent loop of \<open>loop_duplex_stdio\<close> has no exit at end of file: after a
  zero-length read it goes on with the next read, whatever \<open>ieof\<close> is.
\<close>

lemma lds_parent_eof_never_stops:
  "- 1 < nwrite \<Longrightarrow> - 1 < nread \<Longrightarrow>
   lds_parent_loop fd_write translate bufsize nolf linefeed ((Reof, wret, lfret) # io)
     nwrite nread lds_buffer lds_tbuf tr =
   lds_parent_loop fd_write translate bufsize nolf linefeed io
     nwrite 0 lds_buffer lds_tbuf (tr @ [SysRead STDIN_FILENO bufsize])"
  by (simp add: read_ret_def read_buf_def)

text \<open>
  Claim C3 (end-of-file policy of every relay direction) holds for the two directions of
  \<open>ptym_process_stdio\<close> and for the child direction of \<open>loop_duplex_stdio\<close> (the lemmas
  above), and fails for the parent direction of \<open>loop_duplex_stdio\<close>: with \<open>ieof = 0\<close>,
  a zero-length read on standard input does not end the loop. In the run below the
  first read returns 0; the process reads again, relays the two bytes of the second
  read to the device and is still in its loop.
\<close>

theorem lds_parent_ignores_eof_policy:
  "loop_duplex_stdio 3 4 0 0 4 0 None
     \<lparr>fork_ret = 100, getppid_ret = 1, malloc_buffer_ok = True, malloc_tbuf_ok = True,
      signal_intr_ok = True, heap = (\<lambda>i. 0), nread_init = 0\<rparr>
     [] [(Reof, 0, 0), (Rdata ''hi'', 2, 0)] =
   Running [SysClose 3, SysClose STDOUT_FILENO, SysRead STDIN_FILENO 4,
            SysRead STDIN_FILENO 4, SysWrite 4 2]"
  by (simp add: loop_duplex_stdio_def lds_parent_def read_ret_def read_buf_def
      write_or_warn_def write_linefeed_def)


subsection \<open>Who is signalled when a direction stops\<close>

lemma ptym_child_loop_no_kill:
  "kills (loop_trace (ptym_child_loop pty_amaster ignore_eof io tr)) = kills tr"
proof (induction io arbitrary: tr)
  case Nil
  show ?case by simp
next
  case (Cons s io)
  obtain nread wret where s: "s = (nread, wret)" by (cases s)
  show ?case unfolding s by (simp add: Cons.IH) (simp add: kills_def)
qed

lemma ptym_child_loop_not_exited:
  "ptym_child_loop pty_amaster ignore_eof io tr \<noteq> Exited st tr' \<and>
   ptym_child_loop pty_amaster ignore_eof io tr \<noteq> Undefined_behaviour"
proof (induction io arbitrary: tr)
  case Nil
  show ?case by simp
next
  case (Cons s io)
  obtain nread wret where s: "s = (nread, wret)" by (cases s)
  show ?case unfolding s using Cons.IH by simp
qed

lemma ptym_parent_loop_no_kill:
  "kills (loop_trace (ptym_parent_loop pty_amaster pac io tr)) = kills tr"
proof (induction io arbitrary: tr)
  case Nil
  show ?case by simp
next
  case (Cons s io)
  obtain nread wret where s: "s = (nread, wret)" by (cases s)
  show ?case unfolding s by (simp add: Cons.IH) (simp add: kills_def)
qed

lemma ptym_parent_loop_not_exited:
  "ptym_parent_loop pty_amaster pac io tr \<noteq> Exited st tr' \<and>
   ptym_parent_loop pty_amaster pac io tr \<noteq> Undefined_behaviour"
proof (induction io arbitrary: tr)
  case Nil
  show ?case by simp
next
  case (Cons s io)
  obtain nread wret where s: "s = (nread, wret)" by (cases s)
  show ?case unfolding s using Cons.IH by simp
qed

lemma ptym_child_kills:
  "kills (trace_of (ptym_process_stdio_child pty_amaster ignore_eof ppid g env io)) =
     (if stopped (ptym_process_stdio_child pty_amaster ignore_eof ppid g env io)
      then (if 1 = ignore_eof then [SysKill ppid SIGTERM] else []) @
           (if child_pids g > 0 then [SysKill (child_pids g) SIGTERM] else [])
      else [])"
proof -
  define L where "L = ptym_child_loop pty_amaster ignore_eof io [SysClose STDOUT_FILENO]"
  have k: "kills (loop_trace L) = []"
    unfolding L_def by (simp add: ptym_child_loop_no_kill kills_Nil kills_Cons)
  have ne: "L \<noteq> Exited st tr'" "L \<noteq> Undefined_behaviour" for st tr'
    unfolding L_def using ptym_child_loop_not_exited by blast+
  show ?thesis
  proof (cases L)
    case (Left_loop n tr')
    then show ?thesis
      unfolding ptym_process_stdio_child_def L_def [symmetric] using k
      by (simp add: Let_def kills_append kills_Nil kills_Cons kills_cleanup)
  next
    case (Still_looping tr')
    then show ?thesis
      unfolding ptym_process_stdio_child_def L_def [symmetric] using k by simp
  next
    case (Exited st tr')
    with ne show ?thesis by blast
  next
    case Undefined_behaviour
    with ne show ?thesis by blast
  qed
qed

lemma ptym_parent_kills:
  "kills (trace_of (ptym_process_stdio_parent pty_amaster ignore_eof child sigcaught
                      signal_ok g env io)) =
     (if stopped (ptym_process_stdio_parent pty_amaster ignore_eof child sigcaught
                    signal_ok g env io) \<and> signal_ok \<and> 0 = sigcaught
      then [SysKill child SIGTERM] else []) @
     (if exit_status (ptym_process_stdio_parent pty_amaster ignore_eof child sigcaught
                        signal_ok g env io) \<noteq> None \<and> child_pids g > 0
      then [SysKill (child_pids g) SIGTERM] else [])"
proof (cases signal_ok)
  case False
  then show ?thesis
    by (simp add: ptym_process_stdio_parent_def kills_append kills_Nil kills_Cons kills_cleanup)
next
  case True
  define L where
    "L = ptym_parent_loop pty_amaster (if ignore_eof > 0 then - 1 else 0) io []"
  have k: "kills (loop_trace L) = []"
    unfolding L_def by (simp only: ptym_parent_loop_no_kill kills_Nil)
  have ne: "L \<noteq> Exited st tr'" "L \<noteq> Undefined_behaviour" for st tr'
    unfolding L_def using ptym_parent_loop_not_exited by blast+
  show ?thesis
  proof (cases L)
    case (Left_loop n tr')
    then show ?thesis
      unfolding ptym_process_stdio_parent_def Let_def L_def [symmetric] using k True
      by (simp add: kills_append kills_Nil kills_Cons kills_cleanup)
  next
    case (Still_looping tr')
    then show ?thesis
      unfolding ptym_process_stdio_parent_def Let_def L_def [symmetric] using k True by simp
  next
    case (Exited st tr')
    with ne show ?thesis by blast
  next
    case Undefined_behaviour
    with ne show ?thesis by blast
  qed
qed

text \<open>
  The whole parent process of main.c, with the \<open>exit( 0 )\<close> that follows the return of
  \<open>ptym_process_stdio\<close>: it signals the relay child as its direction does, and its exit
  handler signals the spawned program.
\<close>

lemma main_relay_parent_kills:
  "kills (trace_of (main_relay_parent ignoreeof child sigcaught signal_ok g env io)) =
     (if stopped (main_relay_parent ignoreeof child sigcaught signal_ok g env io)
         \<and> signal_ok \<and> 0 = sigcaught
      then [SysKill child SIGTERM] else []) @
     (if stopped (main_relay_parent ignoreeof child sigcaught signal_ok g env io)
         \<and> child_pids g > 0
      then [SysKill (child_pids g) SIGTERM] else [])"
  using ptym_parent_kills [of "fdm g" ignoreeof child sigcaught signal_ok g env io]
  by (cases "ptym_process_stdio_parent (fdm g) ignoreeof child sigcaught signal_ok g env io")
     (auto simp add: main_relay_parent_def kills_append kills_cleanup)

lemma lds_child_loop_inv:
  "0 \<le> nwrite \<Longrightarrow> kills tr = k \<Longrightarrow>
   loop_kills_inv k
     (lds_child_loop fd_read ieof translate bufsize linefeed io nwrite nread
        lds_buffer lds_tbuf tr)"
proof (induction io arbitrary: nwrite nread lds_buffer lds_tbuf tr k ieof translate linefeed)
  case Nil
  then show ?case by auto
next
  case (Cons s io)
  obtain r wret lfret where s: "s = (r, wret, lfret)" by (cases s)
  show ?case
    unfolding s using Cons.prems
    by (auto simp add: Let_def write_or_warn_def write_linefeed_def kills_append
        kills_Nil kills_Cons intro!: Cons.IH split: option.splits prod.splits)
qed

lemma lds_child_kills:
  "kills (trace_of (lds_child fd_read fd_write ieof translate bufsize linefeed env io)) =
     (if exit_status (lds_child fd_read fd_write ieof translate bufsize linefeed env io) = Some 0
         \<and> 1 = ieof
      then [SysKill (getppid_ret env) SIGTERM] else [])"
proof -
  define L where
    "L = lds_child_loop fd_read ieof translate bufsize linefeed io 0 (nread_init env)
           (map (heap env) [0..<bufsize])
           (if 1 = translate
            then map (\<lambda>i. char_of (unat (heap env i))) [0..<size_t (bufsize * 2)] else [])
           [SysClose fd_write, SysClose STDIN_FILENO]"
  have inv: "loop_kills_inv [] L"
    unfolding L_def by (rule lds_child_loop_inv) (simp_all add: kills_Nil kills_Cons)
  show ?thesis
    unfolding lds_child_def Let_def L_def [symmetric] using inv
    by (cases L) (auto simp add: kills_append kills_Nil kills_Cons EXIT_FAILURE_def)
qed

lemma lds_child_at_exit_kills:
  "kills (trace_of (at_exit handlers
            (lds_child fd_read fd_write ieof translate bufsize linefeed env io))) =
     (if exit_status (lds_child fd_read fd_write ieof translate bufsize linefeed env io) = Some 0
         \<and> 1 = ieof
      then [SysKill (getppid_ret env) SIGTERM] else []) @
     (if exit_status (lds_child fd_read fd_write ieof translate bufsize linefeed env io) \<noteq> None
      then kills handlers else [])"
  using lds_child_kills [of fd_read fd_write ieof translate bufsize linefeed env io]
  by (cases "lds_child fd_read fd_write ieof translate bufsize linefeed env io")
     (auto simp add: kills_append)

text \<open>
  Claim C4 says that a direction that stops always signals the process of the other
  direction. The child direction of \<open>ptym_process_stdio\<close> with ignore-EOF disabled stops
  at a zero-length read and exits with status 0. The only signal it sends is the one of
  its exit handler, to the spawned program (pid 4711 below); it sends none to its parent
  (pid 100 below), the process of the other direction.
\<close>

theorem relay_child_eof_no_signal_counterexample:
  "ptym_process_stdio_child 3 0 100
     \<lparr>fdm = 3, detached = 0, size_set = True, child_pids = 4711, cmd = None,
      prog = Some 1, prog_list = Some 2, driver = None, driver_list = None\<rparr>
     \<lparr>kill_ret = 0, tcsetattr_ret = 0, tcsetattr_retry_ret = 0, ioctl_ret = 0\<rparr>
     [(0, 0)] =
     Exits 0 [SysClose STDOUT_FILENO, SysRead STDIN_FILENO BUFLEN, SysKill 4711 SIGTERM,
              SysTcsetattr 3, SysIoctlWinsz 3, SysFree 1, SysFree 2] \<and>
   kills [SysClose STDOUT_FILENO, SysRead STDIN_FILENO BUFLEN, SysKill 4711 SIGTERM,
          SysTcsetattr 3, SysIoctlWinsz 3, SysFree 1, SysFree 2] = [SysKill 4711 SIGTERM] \<and>
   SysKill 100 SIGTERM \<notin>
     set [SysClose STDOUT_FILENO, SysRead STDIN_FILENO BUFLEN, SysKill 4711 SIGTERM,
          SysTcsetattr 3, SysIoctlWinsz 3, SysFree 1, SysFree 2]"
  by (simp add: ptym_process_stdio_child_def cleanup_def tty_reset_def free_def kills_def)

text \<open>
  Claim C4, as the code has it. The statement gives, for each direction, all the calls
  of \<open>kill\<close> of its process.

  In \<open>ptym_process_stdio\<close> the child direction, whenever it stops (end of file with
  ignore-EOF disabled, a read error, or a failed write), sends \<open>SIGTERM\<close> to its parent,
  the process of the other direction, exactly when \<open>ignore_eof\<close> is 1, once, and sends
  its parent no signal otherwise. It then exits, and its exit handler \<open>cleanup\<close> sends
  \<open>SIGTERM\<close> to the spawned program when \<open>child_pids > 0\<close>. The parent direction sends
  \<open>SIGTERM\<close> to the relay child exactly when it stops after its loop (the handler for
  \<open>SIGTERM\<close> was installed) and the flag \<open>sigcaught\<close> it tests is 0, once; where it
  ends the process through \<open>err_sys\<close>, the exit handler sends \<open>SIGTERM\<close> to the spawned
  program when \<open>child_pids > 0\<close>.

  In \<open>loop_duplex_stdio\<close> the child direction sends \<open>SIGTERM\<close> to its parent exactly
  when \<open>ieof\<close> is 1 and it exits with status 0, that is after its loop has ended at end
  of file or on a read error ("we notify the parent only when ignoreeof was set"); the
  only other signals of the process are those of the exit handlers of its caller.

  A direction that is still running has sent no signal.
\<close>

theorem relay_stop_signals:
  "kills (trace_of (ptym_process_stdio_child pty_amaster ignore_eof ppid g env io)) =
     (if stopped (ptym_process_stdio_child pty_amaster ignore_eof ppid g env io)
      then (if 1 = ignore_eof then [SysKill ppid SIGTERM] else []) @
           (if child_pids g > 0 then [SysKill (child_pids g) SIGTERM] else [])
      else []) \<and>
   kills (trace_of (ptym_process_stdio_parent master ign child sigcaught signal_ok
                      g_par env_par io_pty)) =
     (if stopped (ptym_process_stdio_parent master ign child sigcaught signal_ok
                    g_par env_par io_pty) \<and> signal_ok \<and> 0 = sigcaught
      then [SysKill child SIGTERM] else []) @
     (if exit_status (ptym_process_stdio_parent master ign child sigcaught signal_ok
                        g_par env_par io_pty) \<noteq> None \<and> child_pids g_par > 0
      then [SysKill (child_pids g_par) SIGTERM] else []) \<and>
   kills (trace_of (at_exit handlers
            (lds_child fd_read fd_write ieof translate bufsize linefeed lenv io_dev))) =
     (if exit_status (lds_child fd_read fd_write ieof translate bufsize linefeed lenv io_dev)
           = Some 0 \<and> 1 = ieof
      then [SysKill (getppid_ret lenv) SIGTERM] else []) @
     (if exit_status (lds_child fd_read fd_write ieof translate bufsize linefeed lenv io_dev)
           \<noteq> None
      then kills handlers else [])"
  by (intro conjI ptym_child_kills ptym_parent_kills lds_child_at_exit_kills)

theorem relay_stop_signals_witness:
  "ptym_process_stdio_child 3 1 100
     \<lparr>fdm = 3, detached = 0, size_set = True, child_pids = 4711, cmd = None,
      prog = Some 1, prog_list = Some 2, driver = None, driver_list = None\<rparr>
     \<lparr>kill_ret = 0, tcsetattr_ret = 0, tcsetattr_retry_ret = 0, ioctl_ret = 0\<rparr>
     [(2, 2), (- 1, 0)] =
     Exits 0 [SysClose STDOUT_FILENO, SysRead STDIN_FILENO BUFLEN, SysWrite 3 2,
              SysRead STDIN_FILENO BUFLEN, SysSleep 5, SysKill 100 SIGTERM,
              SysKill 4711 SIGTERM, SysTcsetattr 3, SysIoctlWinsz 3, SysFree 1, SysFree 2] \<and>
   kills (trace_of (ptym_process_stdio_child 3 1 100
     \<lparr>fdm = 3, detached = 0, size_set = True, child_pids = 4711, cmd = None,
      prog = Some 1, prog_list = Some 2, driver = None, driver_list = None\<rparr>
     \<lparr>kill_ret = 0, tcsetattr_ret = 0, tcsetattr_retry_ret = 0, ioctl_ret = 0\<rparr>
     [(2, 2), (- 1, 0)])) =
     [SysKill 100 SIGTERM, SysKill 4711 SIGTERM] \<and>
   kills (trace_of (ptym_process_stdio_parent 3 0 200 0 True
     \<lparr>fdm = 3, detached = 0, size_set = True, child_pids = 4711, cmd = None,
      prog = Some 1, prog_list = Some 2, driver = None, driver_list = None\<rparr>
     \<lparr>kill_ret = 0, tcsetattr_ret = 0, tcsetattr_retry_ret = 0, ioctl_ret = 0\<rparr>
     [(2, 2), (0, 0)])) =
     [SysKill 200 SIGTERM]"
proof -
  let ?g = "\<lparr>fdm = 3, detached = 0, size_set = True, child_pids = 4711, cmd = None,
      prog = Some 1, prog_list = Some 2, driver = None, driver_list = None\<rparr>"
  let ?e = "\<lparr>kill_ret = 0, tcsetattr_ret = 0, tcsetattr_retry_ret = 0, ioctl_ret = 0\<rparr>"
  have c: "ptym_process_stdio_child 3 1 100 ?g ?e [(2, 2), (- 1, 0)] =
     Exits 0 [SysClose STDOUT_FILENO, SysRead STDIN_FILENO BUFLEN, SysWrite 3 2,
              SysRead STDIN_FILENO BUFLEN, SysSleep 5, SysKill 100 SIGTERM,
              SysKill 4711 SIGTERM, SysTcsetattr 3, SysIoctlWinsz 3, SysFree 1, SysFree 2]"
    by (simp add: ptym_process_stdio_child_def cleanup_def tty_reset_def free_def)
  have p: "ptym_process_stdio_parent 3 0 200 0 True ?g ?e [(2, 2), (0, 0)] =
     Returns [SysRead 3 BUFLEN, SysWrite STDOUT_FILENO 2, SysRead 3 BUFLEN,
              SysKill 200 SIGTERM]"
    by (simp add: ptym_process_stdio_parent_def)
  from relay_stop_signals [where pty_amaster = 3 and ignore_eof = 1 and ppid = 100
      and g = ?g and env = ?e and io = "[(2, 2), (- 1, 0)]" and master = 3 and ign = 0
      and child = 200 and sigcaught = 0 and signal_ok = True and g_par = ?g
      and env_par = ?e and io_pty = "[(2, 2), (0, 0)]"]
  show ?thesis using c p by simp
qed


section \<open>Verification of the slave-name bound\<close>

lemma size_t_of_int_id: "0 \<le> i \<Longrightarrow> i < 2 ^ 31 \<Longrightarrow> size_t_of_int i = nat i"
  by (simp add: size_t_of_int_def)

lemma strncpy_frame:
  "strncpy dest src n = Some b \<Longrightarrow> length b = length dest \<and> drop n b = drop n dest"
  by (auto simp add: strncpy_def split: if_splits)

lemma terminate_at_frame:
  "terminate_at buf namesz = Some b \<Longrightarrow>
   length b = length buf \<and> drop (nat namesz) b = drop (nat namesz) buf \<and>
   NUL \<in> set (take (nat namesz) b)"
proof -
  assume a: "terminate_at buf namesz = Some b"
  then have i: "0 \<le> namesz - 1" "nat (namesz - 1) < length buf"
    and b: "b = buf[nat (namesz - 1) := NUL]"
    by (auto simp add: terminate_at_def split: if_splits)
  have lt: "nat (namesz - 1) < nat namesz" using i(1) by simp
  have "take (nat namesz) b ! nat (namesz - 1) = NUL"
    using i lt by (simp add: b)
  moreover have "nat (namesz - 1) < length (take (nat namesz) b)"
    using i lt by (simp add: b)
  ultimately have "NUL \<in> set (take (nat namesz) b)" by (metis nth_mem)
  moreover have "drop (nat namesz) b = drop (nat namesz) buf"
    using lt by (simp add: b)
  ultimately show ?thesis by (simp add: b)
qed

lemma name_stored:
  assumes "1 \<le> namesz" "namesz < 2 ^ 31" "nat namesz \<le> length buf"
    "nat namesz \<le> length src \<or> NUL \<in> set src"
  shows "\<exists>copied named. strncpy buf src (size_t_of_int namesz) = Some copied \<and>
           terminate_at copied namesz = Some named \<and>
           length named = length buf \<and> drop (nat namesz) named = drop (nat namesz) buf \<and>
           NUL \<in> set (take (nat namesz) named)"
proof -
  have sz: "size_t_of_int namesz = nat namesz"
    using assms(1,2) by (intro size_t_of_int_id) simp_all
  obtain copied where c: "strncpy buf src (nat namesz) = Some copied"
    using assms(3,4) by (auto simp add: strncpy_def)
  have cf: "length copied = length buf" "drop (nat namesz) copied = drop (nat namesz) buf"
    using strncpy_frame [OF c] by simp_all
  have "nat (namesz - 1) < length copied" using assms(1,3) cf(1) by linarith
  then obtain named where n: "terminate_at copied namesz = Some named"
    using assms(1) by (simp add: terminate_at_def)
  from terminate_at_frame [OF n] cf c n sz show ?thesis by simp
qed

lemma ptym_open_name:
  assumes "1 \<le> namesz" "namesz < 2 ^ 31" "nat namesz \<le> length buf"
  shows "case ptym_open buf namesz no_ctty env of
           Result (fd, buf') \<Rightarrow>
             length buf' = length buf \<and> drop (nat namesz) buf' = drop (nat namesz) buf \<and>
             (0 \<le> fd \<longrightarrow> NUL \<in> set (take (nat namesz) buf'))
         | Ended \<Rightarrow> True
         | Out_of_bounds \<Rightarrow> False"
proof (cases "ptsname_ret env")
  case None
  then show ?thesis by (simp add: ptym_open_def Let_def)
next
  case (Some ptr)
  obtain copied named where
    "strncpy buf (ptr @ [NUL]) (size_t_of_int namesz) = Some copied"
    "terminate_at copied namesz = Some named"
    "length named = length buf" "drop (nat namesz) named = drop (nat namesz) buf"
    "NUL \<in> set (take (nat namesz) named)"
    using name_stored [OF assms, of "ptr @ [NUL]"] by auto
  then show ?thesis using Some by (simp add: ptym_open_def Let_def)
qed

text \<open>
  Claim C10 (slave-name bound). For every call of \<open>ptym_open\<close> or \<open>pty_fork_init\<close> with
  a name buffer that is not \<open>NULL\<close> and a declared size \<open>namesz \<ge> 1\<close> (an \<open>int\<close>, and not
  more than the buffer has cells), whatever the length of the name of the platform's pty
  is: the call makes no access outside the buffer, it leaves every cell from index
  \<open>namesz\<close> on as it was, and when it returns a descriptor of the master the buffer holds
  a \<open>NUL\<close> at or before index \<open>namesz - 1\<close>.
\<close>

theorem slave_name_bound:
  assumes "1 \<le> namesz" "namesz < 2 ^ 31" "nat namesz \<le> length buf"
  shows "(case ptym_open buf namesz no_ctty env of
            Result (fd, buf') \<Rightarrow>
              length buf' = length buf \<and> drop (nat namesz) buf' = drop (nat namesz) buf \<and>
              (0 \<le> fd \<longrightarrow> NUL \<in> set (take (nat namesz) buf'))
          | Ended \<Rightarrow> True
          | Out_of_bounds \<Rightarrow> False) \<and>
         (case pty_fork_init (Some buf) namesz no_ctty stack env of
            Result (pid, fd, sn) \<Rightarrow>
              (case sn of
                 None \<Rightarrow> False
               | Some buf' \<Rightarrow>
                   length buf' = length buf \<and> drop (nat namesz) buf' = drop (nat namesz) buf \<and>
                   NUL \<in> set (take (nat namesz) buf'))
          | Ended \<Rightarrow> True
          | Out_of_bounds \<Rightarrow> False)"
proof
  show "case ptym_open buf namesz no_ctty env of
            Result (fd, buf') \<Rightarrow>
              length buf' = length buf \<and> drop (nat namesz) buf' = drop (nat namesz) buf \<and>
              (0 \<le> fd \<longrightarrow> NUL \<in> set (take (nat namesz) buf'))
          | Ended \<Rightarrow> True
          | Out_of_bounds \<Rightarrow> False"
    by (rule ptym_open_name [OF assms])
next
  define local_name where "local_name = map stack [0..<PTS_NAME_LENGTH]"
  have inner: "case ptym_open local_name (int PTS_NAME_LENGTH) no_ctty env of
           Result (fd, buf') \<Rightarrow>
             length buf' = length local_name \<and>
             drop (nat (int PTS_NAME_LENGTH)) buf' = drop (nat (int PTS_NAME_LENGTH)) local_name \<and>
             (0 \<le> fd \<longrightarrow> NUL \<in> set (take (nat (int PTS_NAME_LENGTH)) buf'))
         | Ended \<Rightarrow> True
         | Out_of_bounds \<Rightarrow> False"
    by (rule ptym_open_name) (simp_all add: PTS_NAME_LENGTH_def local_name_def)
  show "case pty_fork_init (Some buf) namesz no_ctty stack env of
            Result (pid, fd, sn) \<Rightarrow>
              (case sn of
                 None \<Rightarrow> False
               | Some buf' \<Rightarrow>
                   length buf' = length buf \<and> drop (nat namesz) buf' = drop (nat namesz) buf \<and>
                   NUL \<in> set (take (nat namesz) buf'))
          | Ended \<Rightarrow> True
          | Out_of_bounds \<Rightarrow> False"
  proof (cases "ptym_open local_name (int PTS_NAME_LENGTH) no_ctty env")
    case (Result p)
    obtain fd_master pts_name where p: "p = (fd_master, pts_name)" by (cases p)
    show ?thesis
    proof (cases "fd_master < 0")
      case True
      then show ?thesis
        using Result p by (simp add: pty_fork_init_def local_name_def [symmetric])
    next
      case False
      then have "NUL \<in> set pts_name"
        using inner Result p by (auto dest: in_set_takeD)
      then obtain copied named where
        "strncpy buf pts_name (size_t_of_int namesz) = Some copied"
        "terminate_at copied namesz = Some named"
        "length named = length buf" "drop (nat namesz) named = drop (nat namesz) buf"
        "NUL \<in> set (take (nat namesz) named)"
        using name_stored [OF assms, of pts_name] by auto
      then show ?thesis
        using Result p False
        by (simp add: pty_fork_init_def local_name_def [symmetric] Let_def)
    qed
  next
    case Ended
    then show ?thesis by (simp add: pty_fork_init_def local_name_def [symmetric])
  next
    case Out_of_bounds
    with inner show ?thesis by simp
  qed
qed

theorem slave_name_bound_witness:
  "(1 :: int) \<le> 5 \<and> (5 :: int) < 2 ^ 31 \<and> nat 5 \<le> length ''xxxxxxx'' \<and>
   ptym_open ''xxxxxxx'' 5 1
     \<lparr>posix_openpt_ret = 3, grantpt_ret = 0, unlockpt_ret = 0,
      ptsname_ret = Some ''/dev/pts/12'', errno_val = 0, pty_fork_ret = 100,
      child_attach_ok = True\<rparr> =
     Result (3, [CHR ''/'', CHR ''d'', CHR ''e'', CHR ''v'', NUL, CHR ''x'', CHR ''x'']) \<and>
   (case pty_fork_init (Some ''xxxxxxx'') 5 1 (\<lambda>i. CHR ''?'')
      \<lparr>posix_openpt_ret = 3, grantpt_ret = 0, unlockpt_ret = 0,
       ptsname_ret = Some ''/dev/pts/12'', errno_val = 0, pty_fork_ret = 100,
       child_attach_ok = True\<rparr> of
            Result (pid, fd, sn) \<Rightarrow>
              (case sn of
                 None \<Rightarrow> False
               | Some buf' \<Rightarrow>
                   length buf' = length ''xxxxxxx'' \<and>
                   drop (nat 5) buf' = drop (nat 5) ''xxxxxxx'' \<and>
                   NUL \<in> set (take (nat 5) buf'))
          | Ended \<Rightarrow> True
          | Out_of_bounds \<Rightarrow> False)"
proof -
  have h: "(1 :: int) \<le> 5" "(5 :: int) < 2 ^ 31" "nat 5 \<le> length ''xxxxxxx''"
    by simp_all
  have e: "ptym_open ''xxxxxxx'' 5 1
     \<lparr>posix_openpt_ret = 3, grantpt_ret = 0, unlockpt_ret = 0,
      ptsname_ret = Some ''/dev/pts/12'', errno_val = 0, pty_fork_ret = 100,
      child_attach_ok = True\<rparr> =
     Result (3, [CHR ''/'', CHR ''d'', CHR ''e'', CHR ''v'', NUL, CHR ''x'', CHR ''x''])"
    by (simp add: ptym_open_def strncpy_def terminate_at_def size_t_of_int_def NUL_def)
  from slave_name_bound [OF h] h e show ?thesis by blast
qed


end
